theory Spec2Isabelle
  imports Complex_Main
begin

section \<open>Homomorphic Eigenfaces: the numeric engine of homomorphic_eigenfaces_module.py\<close>

text \<open>
  The development embeds the two classes of the module, \<open>EigenfacesClient\<close> (the key
  holder) and \<open>EigenfacesServer\<close> (the computation engine).

  Numbers. A number handled by the server is either a plaintext Python scalar or a
  one-slot \<open>CKKSVector\<close>. Arithmetic is exact arithmetic on \<open>real\<close>: neither the
  rounding of binary floating point nor the approximation noise of CKKS is modelled, and
  a ciphertext is represented by the plaintext it decrypts to. The tag is kept because
  the source branches on \<open>type(a) is ts.tensors.ckksvector.CKKSVector\<close> and because
  \<open>decrypt\<close> exists on ciphertexts only.

  Errors. Every exception the source can raise is a value of \<open>error\<close>. Division by a
  plaintext zero follows Python scalars (\<open>ZeroDivisionError\<close>); a numpy \<open>float64\<close> zero
  would give \<open>inf\<close> or \<open>nan\<close> with a warning instead, values that \<open>real\<close> does not have.

  Oracles. The five functions injected into \<open>EigenfacesServer.__init__\<close> are the client
  methods that main.py passes: \<open>_n_components_comparison\<close>, \<open>_distance_comparison\<close>,
  \<open>_goldschmidt_initializer\<close>, \<open>_reencrypt_mat\<close> and \<open>_reencrypt_vec\<close>. Every call the
  server makes to one of them is recorded, in order, in a list of \<open>call\<close>s that is
  returned next to the result.
\<close>

subsection \<open>Numbers, errors, results\<close>

datatype num = Plain real | Enc real

fun val :: "num \<Rightarrow> real" where
  "val (Plain v) = v"
| "val (Enc v) = v"

fun is_ckks :: "num \<Rightarrow> bool" where
  "is_ckks (Plain v) = False"
| "is_ckks (Enc v) = True"

text \<open>\<open>x * y\<close> and \<open>x + y\<close>: the result is a ciphertext as soon as one operand is.\<close>

definition num_mul :: "num \<Rightarrow> num \<Rightarrow> num" where
  "num_mul x y = (if is_ckks x \<or> is_ckks y then Enc (val x * val y) else Plain (val x * val y))"

definition num_add :: "num \<Rightarrow> num \<Rightarrow> num" where
  "num_add x y = (if is_ckks x \<or> is_ckks y then Enc (val x + val y) else Plain (val x + val y))"

datatype error = ZeroDivisionError | IndexError | AttributeError | ValueError | TypeError

text \<open>Pure Python code that can raise: \<open>error + 'a\<close>, with sequencing \<open>bindE\<close>.\<close>

definition bindE :: "error + 'a \<Rightarrow> ('a \<Rightarrow> error + 'b) \<Rightarrow> error + 'b" where
  "bindE m f = (case m of Inl e \<Rightarrow> Inl e | Inr x \<Rightarrow> f x)"

fun mapE :: "('a \<Rightarrow> error + 'b) \<Rightarrow> 'a list \<Rightarrow> error + 'b list" where
  "mapE f [] = Inr []"
| "mapE f (x # xs) = bindE (f x) (\<lambda>y. bindE (mapE f xs) (\<lambda>ys. Inr (y # ys)))"

text \<open>\<open>xs[i]\<close> for \<open>i\<close> from a \<open>range\<close> (never negative): IndexError out of range.\<close>

definition idx :: "'a list \<Rightarrow> nat \<Rightarrow> error + 'a" where
  "idx xs i = (if i < length xs then Inr (xs ! i) else Inl IndexError)"

text \<open>The calls the server makes to the key holder.\<close>

datatype call =
    SeedReciprocal num
  | ReencryptVec "num list"
  | ReencryptMat "num list list"
  | SelectComponents "num list"
  | SelectMinimum "num list"

type_synonym 'a res = "(error + 'a) \<times> call list"

definition ret :: "'a \<Rightarrow> 'a res" where
  "ret x = (Inr x, [])"

definition lift :: "error + 'a \<Rightarrow> 'a res" where
  "lift r = (r, [])"

definition ask :: "call \<Rightarrow> error + 'a \<Rightarrow> 'a res" where
  "ask c r = (r, [c])"

definition bindR :: "'a res \<Rightarrow> ('a \<Rightarrow> 'b res) \<Rightarrow> 'b res" where
  "bindR m f =
     (case m of
        (Inl e, t) \<Rightarrow> (Inl e, t)
      | (Inr x, t) \<Rightarrow> (case f x of (r, t') \<Rightarrow> (r, t @ t')))"

fun mapR :: "('a \<Rightarrow> 'b res) \<Rightarrow> 'a list \<Rightarrow> 'b list res" where
  "mapR f [] = ret []"
| "mapR f (x # xs) = bindR (f x) (\<lambda>y. bindR (mapR f xs) (\<lambda>ys. ret (y # ys)))"

text \<open>\<open>for _ in range(n): s = body(s)\<close>.\<close>

fun for_range :: "nat \<Rightarrow> ('s \<Rightarrow> 's res) \<Rightarrow> 's \<Rightarrow> 's res" where
  "for_range 0 body s = ret s"
| "for_range (Suc n) body s = bindR (body s) (for_range n body)"

subsection \<open>numpy helpers\<close>

text \<open>\<open>np.sum\<close> of a list of numbers: \<open>0.0\<close> for the empty list.\<close>

fun np_sum :: "num list \<Rightarrow> num" where
  "np_sum [] = Plain 0"
| "np_sum (x # xs) = foldl num_add x xs"

text \<open>
  \<open>np.sum(X, axis = 0)\<close> of a two-dimensional array given as the list of its rows: the
  column sums. Rows of different lengths are no two-dimensional array (ValueError). For
  no rows at all numpy returns the scalar \<open>0.0\<close>, which the caller never indexes.
\<close>

definition np_sum_axis0 :: "num list list \<Rightarrow> error + num list" where
  "np_sum_axis0 X =
     (case X of
        [] \<Rightarrow> Inr []
      | r # rs \<Rightarrow>
          if list_all (\<lambda>row. length row = length r) rs
          then Inr (foldl (\<lambda>acc row. map2 num_add acc row) r rs)
          else Inl ValueError)"

text \<open>\<open>[n, d] = np.shape(X)\<close>: the unpacking needs exactly two dimensions.\<close>

definition np_shape :: "'a list list \<Rightarrow> error + nat \<times> nat" where
  "np_shape X =
     (case X of
        [] \<Rightarrow> Inl ValueError
      | r # rs \<Rightarrow>
          if list_all (\<lambda>row. length row = length r) rs
          then Inr (length X, length r)
          else Inl ValueError)"

text \<open>\<open>X.T\<close> of a two-dimensional array.\<close>

definition np_T :: "'a list list \<Rightarrow> 'a list list" where
  "np_T X = (case X of [] \<Rightarrow> [] | r # rs \<Rightarrow> map (\<lambda>j. map (\<lambda>row. row ! j) X) [0..<length r])"

text \<open>\<open>M[i][j]\<close>.\<close>

definition idx2 :: "'a list list \<Rightarrow> nat \<Rightarrow> nat \<Rightarrow> error + 'a" where
  "idx2 M i j = bindE (idx M i) (\<lambda>row. idx row j)"

text \<open>\<open>W[:, i]\<close> and \<open>W[:, i] = v\<close> on a two-dimensional array.\<close>

definition column :: "'a list list \<Rightarrow> nat \<Rightarrow> error + 'a list" where
  "column W i = (if W = [] then Inl IndexError else mapE (\<lambda>row. idx row i) W)"

definition set_column :: "'a list list \<Rightarrow> nat \<Rightarrow> 'a list \<Rightarrow> error + 'a list list" where
  "set_column W i v =
     (if length v = length W then Inr (map2 (\<lambda>row x. row[i := x]) W v) else Inl ValueError)"

text \<open>
  \<open>u + v\<close> on one-dimensional arrays, with numpy's broadcasting of a length-one operand.
\<close>

definition np_add :: "num list \<Rightarrow> num list \<Rightarrow> error + num list" where
  "np_add u v =
     (if length u = length v then Inr (map2 num_add u v)
      else if length u = 1 then Inr (map (\<lambda>y. num_add (hd u) y) v)
      else if length v = 1 then Inr (map (\<lambda>x. num_add x (hd v)) u)
      else Inl ValueError)"

text \<open>
  \<open>X += v\<close> and \<open>C += T\<close>, in place: the right operand is broadcast to the shape of the
  left one, which cannot change.
\<close>

definition np_iadd_vec :: "num list \<Rightarrow> num list \<Rightarrow> error + num list" where
  "np_iadd_vec row v =
     (if length v = length row then Inr (map2 num_add row v)
      else if length v = 1 then Inr (map (\<lambda>x. num_add x (hd v)) row)
      else Inl ValueError)"

definition np_iadd_rows :: "num list list \<Rightarrow> num list \<Rightarrow> error + num list list" where
  "np_iadd_rows X v = mapE (\<lambda>row. np_iadd_vec row v) X"

definition np_iadd_mat :: "num list list \<Rightarrow> num list list \<Rightarrow> error + num list list" where
  "np_iadd_mat C T =
     (if length T = length C then mapE (\<lambda>(row, t). np_iadd_vec row t) (zip C T)
      else if length T = 1 then mapE (\<lambda>row. np_iadd_vec row (hd T)) C
      else Inl ValueError)"

text \<open>\<open>np.argmin\<close>: the first position of the minimum; ValueError on an empty array.\<close>

fun argmin_scan :: "real list \<Rightarrow> nat \<Rightarrow> real \<Rightarrow> nat \<Rightarrow> nat" where
  "argmin_scan [] i best bi = bi"
| "argmin_scan (x # xs) i best bi =
     (if x < best then argmin_scan xs (Suc i) x i else argmin_scan xs (Suc i) best bi)"

definition np_argmin :: "real list \<Rightarrow> error + nat" where
  "np_argmin D = (case D of [] \<Rightarrow> Inl ValueError | x # xs \<Rightarrow> Inr (argmin_scan xs 1 x 0))"

fun np_cumsum_from :: "real \<Rightarrow> real list \<Rightarrow> real list" where
  "np_cumsum_from acc [] = []"
| "np_cumsum_from acc (x # xs) = (acc + x) # np_cumsum_from (acc + x) xs"

definition np_cumsum :: "real list \<Rightarrow> real list" where
  "np_cumsum xs = np_cumsum_from 0 xs"

text \<open>\<open>for i in is: s = body(i, s)\<close>.\<close>

fun for_each :: "'i list \<Rightarrow> ('i \<Rightarrow> 's \<Rightarrow> 's res) \<Rightarrow> 's \<Rightarrow> 's res" where
  "for_each [] body s = ret s"
| "for_each (i # is) body s = bindR (body i s) (for_each is body)"

subsection \<open>EigenfacesClient: encryption, decryption and the oracles\<close>

text \<open>\<open>V[i].decrypt()[0]\<close>: a plaintext float has no method \<open>decrypt\<close>.\<close>

fun decrypt_entry :: "num \<Rightarrow> error + real" where
  "decrypt_entry (Enc v) = Inr v"
| "decrypt_entry (Plain v) = Inl AttributeError"

definition decrypt_vec :: "num list \<Rightarrow> error + real list" where
  "decrypt_vec V = mapE decrypt_entry V"

definition encrypt_vec :: "real list \<Rightarrow> num list" where
  "encrypt_vec V = map Enc V"

definition reencrypt_vec :: "num list \<Rightarrow> error + num list" where
  "reencrypt_vec V = bindE (decrypt_vec V) (\<lambda>dec_vec. Inr (encrypt_vec dec_vec))"

definition Decrypt :: "num list list \<Rightarrow> error + real list list" where
  "Decrypt M = mapE decrypt_vec M"

definition Encrypt :: "real list list \<Rightarrow> num list list" where
  "Encrypt mat = map encrypt_vec mat"

definition reencrypt_mat :: "num list list \<Rightarrow> error + num list list" where
  "reencrypt_mat M = bindE (Decrypt M) (\<lambda>dec_mat. Inr (Encrypt dec_mat))"

text \<open>
  \<open>_goldschmidt_initializer\<close>: \<open>1 / x\<close>, computed on the decrypted value and encrypted
  again when \<open>x\<close> is a ciphertext.
\<close>

fun goldschmidt_initializer :: "num \<Rightarrow> error + num" where
  "goldschmidt_initializer (Enc v) = (if v = 0 then Inl ZeroDivisionError else Inr (Enc (1 / v)))"
| "goldschmidt_initializer (Plain v) = (if v = 0 then Inl ZeroDivisionError else Inr (Plain (1 / v)))"

text \<open>
  \<open>_n_components_comparison\<close>. The loop runs over \<open>np.cumsum(Lambdas) / np.sum(Lambdas)\<close>
  and returns the position \<open>i\<close> of the first entry above \<open>v = 0.99\<close>; when no entry is, the
  function ends without \<open>return\<close> (None). numpy does not raise on a zero divisor: the
  quotient is \<open>inf\<close>, \<open>-inf\<close> or \<open>nan\<close>, and only \<open>inf\<close> compares greater than \<open>v\<close>.
\<close>

definition exceeds :: "real \<Rightarrow> real \<Rightarrow> bool" where
  "exceeds c s = (if s = 0 then 0 < c else 99 / 100 < c / s)"

fun first_exceeding :: "real list \<Rightarrow> real \<Rightarrow> nat \<Rightarrow> nat option" where
  "first_exceeding [] s i = None"
| "first_exceeding (c # cs) s i = (if exceeds c s then Some i else first_exceeding cs s (Suc i))"

definition n_components_comparison :: "num list \<Rightarrow> error + nat option" where
  "n_components_comparison Lambdas =
     bindE (decrypt_vec Lambdas) (\<lambda>Lambdas.
       Inr (first_exceeding (np_cumsum Lambdas) (sum_list Lambdas) 0))"

definition distance_comparison :: "num list \<Rightarrow> error + nat" where
  "distance_comparison D = bindE (decrypt_vec D) (\<lambda>D. np_argmin D)"

subsection \<open>EigenfacesServer: division and square root\<close>

text \<open>
  \<open>_goldschmidt_division\<close>: the seed from the oracle, \<open>no_iterations = 1\<close> passes of
  \<open>a = r * a\<close>, and a refresh of \<open>a\<close> when it is a ciphertext.
\<close>

definition goldschmidt_division :: "num \<Rightarrow> num \<Rightarrow> num res" where
  "goldschmidt_division a b =
     bindR (ask (SeedReciprocal b) (goldschmidt_initializer b)) (\<lambda>r.
     bindR (for_range 1 (\<lambda>a. ret (num_mul r a)) a) (\<lambda>a.
       if is_ckks a
       then bindR (ask (ReencryptVec [a]) (reencrypt_vec [a])) (\<lambda>a. lift (idx a 0))
       else ret a))"

text \<open>
  \<open>_newton_sqrt\<close>: \<open>newton_body a\<close> is the body of the loop, run \<open>no_iterations = 30\<close>
  times from \<open>x0\<close>; \<open>a\<close> keeps the original argument.
\<close>

definition newton_body :: "num \<Rightarrow> num \<Rightarrow> num res" where
  "newton_body a x0 =
     bindR (goldschmidt_division a x0) (\<lambda>q.
       let x0 = num_mul (Plain (1 / 2)) (num_add x0 q) in
       if is_ckks a
       then bindR (ask (ReencryptVec [x0]) (reencrypt_vec [x0])) (\<lambda>x0. lift (idx x0 0))
       else ret x0)"

definition newton_sqrt :: "num \<Rightarrow> num res" where
  "newton_sqrt x0 = (let a = x0 in for_range 30 (newton_body a) x0)"

text \<open>One Newton-Raphson step on the reals, as the loop body computes it on plaintexts.\<close>

definition newton_step :: "real \<Rightarrow> real \<Rightarrow> real" where
  "newton_step a y = 1 / 2 * (y + 1 / y * a)"

subsection \<open>EigenfacesServer: linear algebra\<close>

definition goldschmidt_vector_division :: "num list \<Rightarrow> num \<Rightarrow> num list res" where
  "goldschmidt_vector_division A b = mapR (\<lambda>x. goldschmidt_division x b) A"

text \<open>
  \<open>_vector_mean\<close>: the column sums, each multiplied by \<open>_goldschmidt_division(1, n)\<close>
  where \<open>n = len(X)\<close> is a Python int.
\<close>

definition vector_mean :: "num list list \<Rightarrow> num list res" where
  "vector_mean X =
     bindR (lift (np_sum_axis0 X)) (\<lambda>col_sums.
     let n = length X in
     bindR (goldschmidt_division (Plain 1) (Plain (real n))) (\<lambda>dividend.
     bindR (lift (bindE (idx X 0) (\<lambda>x0. Inr (length x0)))) (\<lambda>m.
     lift (mapE (\<lambda>i. bindE (idx col_sums i) (\<lambda>s. Inr (num_mul s dividend))) [0..<m]))))"

text \<open>
  The products before the refresh. \<open>matrix_mult_raw A B\<close> is \<open>temp_prod_2\<close> of
  \<open>_matrix_mult\<close>, and likewise for the other three primitives.
\<close>

definition matrix_mult_raw :: "num list list \<Rightarrow> num list list \<Rightarrow> error + num list list" where
  "matrix_mult_raw A B =
     (let rows_a = length A; rows_b = length B in
      bindE (bindE (idx B 0) (\<lambda>b0. Inr (length b0))) (\<lambda>cols_b.
        mapE (\<lambda>i.
          mapE (\<lambda>j.
            bindE (mapE (\<lambda>k.
                     bindE (idx2 A i k) (\<lambda>a. bindE (idx2 B k j) (\<lambda>b. Inr (num_mul a b))))
                   [0..<rows_b])
              (\<lambda>temp_prod_4. Inr (np_sum temp_prod_4)))
          [0..<cols_b])
        [0..<rows_a]))"

definition matrix_mult :: "num list list \<Rightarrow> num list list \<Rightarrow> num list list res" where
  "matrix_mult A B =
     bindR (lift (matrix_mult_raw A B)) (\<lambda>temp_prod_2.
       ask (ReencryptMat temp_prod_2) (reencrypt_mat temp_prod_2))"

definition mat_vec_mult_raw :: "num list list \<Rightarrow> num list \<Rightarrow> error + num list" where
  "mat_vec_mult_raw M V =
     (let rows_M = length M in
      bindE (bindE (idx M 0) (\<lambda>m0. Inr (length m0))) (\<lambda>cols_M.
        mapE (\<lambda>i.
          bindE (mapE (\<lambda>j.
                   bindE (idx2 M i j) (\<lambda>m. bindE (idx V j) (\<lambda>v. Inr (num_mul m v))))
                 [0..<cols_M])
            (\<lambda>temp_prod_3. Inr (np_sum temp_prod_3)))
        [0..<rows_M]))"

definition mat_vec_mult :: "num list list \<Rightarrow> num list \<Rightarrow> num list res" where
  "mat_vec_mult M V =
     bindR (lift (mat_vec_mult_raw M V)) (\<lambda>temp_prod_2.
       ask (ReencryptVec temp_prod_2) (reencrypt_vec temp_prod_2))"

definition vec_mult_raw :: "num list \<Rightarrow> num \<Rightarrow> num list" where
  "vec_mult_raw V x = map (\<lambda>v. num_mul v x) V"

definition vec_mult :: "num list \<Rightarrow> num \<Rightarrow> num list res" where
  "vec_mult V x =
     (let temp_prod_2 = vec_mult_raw V x in
      ask (ReencryptVec temp_prod_2) (reencrypt_vec temp_prod_2))"

definition vec_cross_raw :: "num list \<Rightarrow> num list \<Rightarrow> error + num list list" where
  "vec_cross_raw V1 V2 =
     (let n = length V1 in
      mapE (\<lambda>i.
        mapE (\<lambda>j. bindE (idx V1 i) (\<lambda>a. bindE (idx V2 j) (\<lambda>b. Inr (num_mul a b)))) [0..<n])
      [0..<n])"

definition vec_cross :: "num list \<Rightarrow> num list \<Rightarrow> num list list res" where
  "vec_cross V1 V2 =
     bindR (lift (vec_cross_raw V1 V2)) (\<lambda>temp_prod_2.
       ask (ReencryptMat temp_prod_2) (reencrypt_mat temp_prod_2))"

definition norm_sq :: "num list \<Rightarrow> num" where
  "norm_sq X = foldl (\<lambda>vector_norm x. num_add vector_norm (num_mul x x)) (Plain 0) X"

definition norm_vec :: "num list \<Rightarrow> num res" where
  "norm_vec X = newton_sqrt (norm_sq X)"

definition euclidean_distance :: "num list \<Rightarrow> num list \<Rightarrow> num res" where
  "euclidean_distance p q =
     bindR (lift (np_add p (map (num_mul (Plain (- 1))) q))) (\<lambda>sub.
       let prod = map (\<lambda>s. num_mul s s) sub in
       newton_sqrt (np_sum prod))"

text \<open>\<open>_project\<close>: every image is flattened, shifted by \<open>-1 * mu\<close> and multiplied by \<open>W\<close>.\<close>

definition project :: "num list list list \<Rightarrow> num list list \<Rightarrow> num list \<Rightarrow> num list list res" where
  "project X W mu =
     (let mu = map (num_mul (Plain (- 1))) mu in
      mapR (\<lambda>mat. let temp = concat mat in
              bindR (lift (np_add temp mu)) (\<lambda>v. mat_vec_mult W v)) X)"

subsection \<open>EigenfacesServer: eigen-decomposition\<close>

text \<open>
  \<open>_pow_eig_comb\<close>. \<open>power_pass C no_iterations j\<close> is the body of the inner loop over
  \<open>j in range(no_iterations)\<close>, on the variables \<open>(w, __lambda, w_old)\<close>; \<open>__lambda\<close> has no
  value before the first pass, which assigns it. \<open>eig_body n\<close> is the body of the outer
  loop, on \<open>(C, lambdas, W)\<close>: \<open>C\<close> is updated in place by \<open>C += temp\<close>.
\<close>

definition power_pass ::
  "num list list \<Rightarrow> nat \<Rightarrow> nat \<Rightarrow> num list \<times> num \<times> num
     \<Rightarrow> (num list \<times> num \<times> num) res" where
  "power_pass C no_iterations j s =
     (case s of (w, lam, w_old) \<Rightarrow>
        bindR (mat_vec_mult C w) (\<lambda>x.
        bindR (norm_vec x) (\<lambda>lam.
        bindR (goldschmidt_vector_division x lam) (\<lambda>w.
          if j + 2 = no_iterations
          then bindR (lift (idx w 0)) (\<lambda>w0. ret (w, lam, w0))
          else ret (w, lam, w_old)))))"

definition eig_body ::
  "nat \<Rightarrow> num list list \<times> num list \<times> num list list
     \<Rightarrow> (num list list \<times> num list \<times> num list list) res" where
  "eig_body n s =
     (case s of (C, lambdas, W) \<Rightarrow>
        let no_iterations = 2;
            w_old = Plain 1;
            x = replicate n (Plain 1)
        in
        bindR (norm_vec x) (\<lambda>nx.
        bindR (goldschmidt_vector_division x nx) (\<lambda>w.
        bindR (for_each [0..<no_iterations] (power_pass C no_iterations) (w, Plain 0, w_old)) (\<lambda>(w, lam, w_old).
        bindR (lift (idx w 0)) (\<lambda>w0.
        bindR (goldschmidt_division w0 w_old) (\<lambda>dividend.
        let lam = num_mul dividend lam in
        bindR (vec_mult w dividend) (\<lambda>w.
        bindR (ask (ReencryptVec w) (reencrypt_vec w)) (\<lambda>w.
        bindR (vec_mult w (num_mul (Plain (- 1)) lam)) (\<lambda>temp.
        bindR (vec_cross temp w) (\<lambda>temp.
        bindR (lift (np_iadd_mat C temp)) (\<lambda>C.
          ret (C, lambdas @ [lam], W @ [w]))))))))))))"

definition pow_eig_comb :: "num list list \<Rightarrow> (num list \<times> num list list) res" where
  "pow_eig_comb C =
     (let n = length C in
      bindR (for_range n (eig_body n) (C, [], [])) (\<lambda>(C, lambdas, W). ret (lambdas, W)))"

subsection \<open>EigenfacesServer: the model, training and classification\<close>

text \<open>
  The attributes of the server. \<open>__init__\<close> assigns \<open>is_trained\<close> only: the three arrays
  do not exist as attributes (None here) until \<open>Train\<close> assigns them, and reading a
  missing attribute raises AttributeError.
\<close>

record server =
  is_trained :: bool
  eigenfaces :: "num list list option"
  mean_face :: "num list option"
  projected_training_images :: "num list list option"

definition init_server :: server where
  "init_server =
     \<lparr>is_trained = False, eigenfaces = None, mean_face = None,
      projected_training_images = None\<rparr>"

definition getattr :: "'a option \<Rightarrow> error + 'a" where
  "getattr a = (case a of None \<Rightarrow> Inl AttributeError | Some x \<Rightarrow> Inr x)"

text \<open>
  The normalisation loop of the wide case of \<open>_pca\<close>:
  \<open>W[:, i] = self._goldschmidt_vector_division(W[:, i], self._norm(W[:, i]))\<close>.
\<close>

definition normalize_column :: "nat \<Rightarrow> num list list \<Rightarrow> num list list res" where
  "normalize_column i W =
     bindR (lift (column W i)) (\<lambda>col.
     bindR (norm_vec col) (\<lambda>nrm.
     bindR (goldschmidt_vector_division col nrm) (\<lambda>v.
       lift (set_column W i v))))"

text \<open>
  \<open>_pca\<close>, after \<open>X += -1 * self.mean_face\<close>: \<open>pca_components n d X\<close> works on the
  centred array. The oracle's answer \<open>k\<close> may be None, and \<open>range(0, None)\<close> raises
  TypeError.
\<close>

definition pca_components :: "nat \<Rightarrow> nat \<Rightarrow> num list list \<Rightarrow> num list list res" where
  "pca_components n d X =
     bindR (if n > d
            then bindR (matrix_mult (np_T X) X) (\<lambda>C. pow_eig_comb C)
            else bindR (matrix_mult X (np_T X)) (\<lambda>C.
                 bindR (pow_eig_comb C) (\<lambda>(Lambdas, W).
                 bindR (matrix_mult (np_T X) W) (\<lambda>W.
                 bindR (for_each [0..<n] normalize_column W) (\<lambda>W.
                   ret (Lambdas, W))))))
       (\<lambda>(Lambdas, W).
     bindR (ask (SelectComponents Lambdas) (n_components_comparison Lambdas)) (\<lambda>k.
       case k of
         None \<Rightarrow> lift (Inl TypeError)
       | Some k \<Rightarrow> lift (mapE (\<lambda>i. idx W i) [0..<k])))"

text \<open>
  \<open>_pca\<close> returns its result together with the contents of the caller's array \<open>X\<close>
  when it ends: \<open>X += -1 * self.mean_face\<close> writes into that array.
\<close>

definition pca :: "server \<Rightarrow> num list list \<Rightarrow> num list list res \<times> num list list" where
  "pca self X =
     (case np_shape X of
        Inl e \<Rightarrow> ((Inl e, []), X)
      | Inr (n, d) \<Rightarrow>
          (case getattr (mean_face self) of
             Inl e \<Rightarrow> ((Inl e, []), X)
           | Inr mu \<Rightarrow>
               (case np_iadd_rows X (map (num_mul (Plain (- 1))) mu) of
                  Inl e \<Rightarrow> ((Inl e, []), X)
                | Inr X' \<Rightarrow> (pca_components n d X', X'))))"

text \<open>
  \<open>Train\<close> returns what it raised or returned, the calls to the oracles, the server
  afterwards and the contents of the array \<open>vectorized_training_images\<close> afterwards.
\<close>

definition Train ::
  "server \<Rightarrow> num list list list \<Rightarrow> num list list \<Rightarrow> unit res \<times> server \<times> num list list" where
  "Train self normalized_training_images vectorized_training_images =
     (case vector_mean vectorized_training_images of
        (Inl e, t1) \<Rightarrow> ((Inl e, t1), self, vectorized_training_images)
      | (Inr mean, t1) \<Rightarrow>
          let self = self\<lparr>mean_face := Some mean\<rparr> in
          (case pca self vectorized_training_images of
             ((Inl e, t2), X) \<Rightarrow> ((Inl e, t1 @ t2), self, X)
           | ((Inr W, t2), X) \<Rightarrow>
               let self = self\<lparr>eigenfaces := Some W\<rparr> in
               (case project normalized_training_images W mean of
                  (Inl e, t3) \<Rightarrow> ((Inl e, t1 @ t2 @ t3), self, X)
                | (Inr p, t3) \<Rightarrow>
                    ((Inr (), t1 @ t2 @ t3),
                     self\<lparr>projected_training_images := Some p, is_trained := True\<rparr>, X))))"

text \<open>\<open>Classify\<close>. The labels are of any type.\<close>

definition classify_one ::
  "num list list \<Rightarrow> num list list \<Rightarrow> 'l list \<Rightarrow> nat \<Rightarrow> 'l res" where
  "classify_one projected q training_labels i =
     (let m = length projected in
      bindR (mapR (\<lambda>j. bindR (lift (idx projected j)) (\<lambda>pj.
                         bindR (lift (idx q i)) (\<lambda>qi. euclidean_distance pj qi))) [0..<m])
        (\<lambda>distances.
      bindR (ask (SelectMinimum distances) (distance_comparison distances))
        (\<lambda>classification_index.
      lift (idx training_labels classification_index))))"

definition Classify :: "server \<Rightarrow> num list list list \<Rightarrow> 'l list \<Rightarrow> 'l list res" where
  "Classify self normalized_test_images training_labels =
     bindR (lift (getattr (eigenfaces self))) (\<lambda>W.
     bindR (lift (getattr (mean_face self))) (\<lambda>mu.
     bindR (project normalized_test_images W mu) (\<lambda>q.
     let n = length q in
     bindR (lift (getattr (projected_training_images self))) (\<lambda>projected.
       mapR (classify_one projected q training_labels) [0..<n]))))"

subsection \<open>The plaintext path on IEEE binary64\<close>

text \<open>
  Python floats and numpy \<open>float64\<close> values are IEEE 754 binary64 numbers. \<open>f64\<close> holds
  a finite value, an infinity or a NaN (the sign of a zero is not kept: Python raises on
  a division by either zero). \<open>round_f64\<close> rounds a real to the nearest binary64 value,
  ties to even: 53 significant bits, subnormals spaced \<open>2\<^sup>-\<^sup>1\<^sup>0\<^sup>7\<^sup>4\<close> apart,
  overflow to an infinity. \<open>py_reciprocal\<close> is Python's \<open>1 / x\<close>.
  \<open>goldschmidt_division_f64\<close> and \<open>vector_mean_f64\<close> are the plaintext paths of
  \<open>_goldschmidt_division\<close> (seed \<open>1 / b\<close>, one pass of \<open>a = r * a\<close>, no refresh) and of
  \<open>_vector_mean\<close> on these numbers, results only. \<open>np.sum(X, axis = 0)\<close> is taken row
  after row; numpy may add in another order, which gives the same sums wherever every
  partial sum is exact.
\<close>

datatype f64 = Finite real | PosInf | NegInf | NaN

definition pow2 :: "int \<Rightarrow> real" where
  "pow2 k = (if 0 \<le> k then 2 ^ nat k else 1 / 2 ^ nat (- k))"

definition round_even :: "real \<Rightarrow> int" where
  "round_even r =
     (let f = \<lfloor>r\<rfloor> in
      if r - of_int f < 1 / 2 then f
      else if 1 / 2 < r - of_int f then f + 1
      else if even f then f else f + 1)"

definition round_f64 :: "real \<Rightarrow> f64" where
  "round_f64 x =
     (if x = 0 then Finite 0
      else
        let e = max (\<lfloor>log 2 \<bar>x\<bar>\<rfloor> - 52) (- 1074);
            r = of_int (round_even (x / pow2 e)) * pow2 e
        in if 2 ^ 1024 \<le> \<bar>r\<bar> then (if 0 < x then PosInf else NegInf) else Finite r)"

fun f64_mul :: "f64 \<Rightarrow> f64 \<Rightarrow> f64" where
  "f64_mul (Finite a) (Finite b) = round_f64 (a * b)"
| "f64_mul NaN y = NaN"
| "f64_mul x NaN = NaN"
| "f64_mul (Finite a) PosInf = (if a = 0 then NaN else if 0 < a then PosInf else NegInf)"
| "f64_mul (Finite a) NegInf = (if a = 0 then NaN else if 0 < a then NegInf else PosInf)"
| "f64_mul PosInf (Finite b) = (if b = 0 then NaN else if 0 < b then PosInf else NegInf)"
| "f64_mul NegInf (Finite b) = (if b = 0 then NaN else if 0 < b then NegInf else PosInf)"
| "f64_mul PosInf PosInf = PosInf"
| "f64_mul PosInf NegInf = NegInf"
| "f64_mul NegInf PosInf = NegInf"
| "f64_mul NegInf NegInf = PosInf"

fun f64_add :: "f64 \<Rightarrow> f64 \<Rightarrow> f64" where
  "f64_add (Finite a) (Finite b) = round_f64 (a + b)"
| "f64_add NaN y = NaN"
| "f64_add x NaN = NaN"
| "f64_add PosInf NegInf = NaN"
| "f64_add NegInf PosInf = NaN"
| "f64_add PosInf y = PosInf"
| "f64_add NegInf y = NegInf"
| "f64_add x PosInf = PosInf"
| "f64_add x NegInf = NegInf"

fun py_reciprocal :: "f64 \<Rightarrow> error + f64" where
  "py_reciprocal (Finite v) = (if v = 0 then Inl ZeroDivisionError else Inr (round_f64 (1 / v)))"
| "py_reciprocal PosInf = Inr (Finite 0)"
| "py_reciprocal NegInf = Inr (Finite 0)"
| "py_reciprocal NaN = Inr NaN"

definition goldschmidt_division_f64 :: "f64 \<Rightarrow> f64 \<Rightarrow> error + f64" where
  "goldschmidt_division_f64 a b = bindE (py_reciprocal b) (\<lambda>r. Inr (f64_mul r a))"

definition np_sum_axis0_f64 :: "f64 list list \<Rightarrow> error + f64 list" where
  "np_sum_axis0_f64 X =
     (case X of
        [] \<Rightarrow> Inr []
      | r # rs \<Rightarrow>
          if list_all (\<lambda>row. length row = length r) rs
          then Inr (foldl (\<lambda>acc row. map2 f64_add acc row) r rs)
          else Inl ValueError)"

definition vector_mean_f64 :: "f64 list list \<Rightarrow> error + f64 list" where
  "vector_mean_f64 X =
     bindE (np_sum_axis0_f64 X) (\<lambda>col_sums.
     let n = length X in
     bindE (goldschmidt_division_f64 (Finite 1) (Finite (real n))) (\<lambda>dividend.
     bindE (bindE (idx X 0) (\<lambda>x0. Inr (length x0))) (\<lambda>m.
     mapE (\<lambda>i. bindE (idx col_sums i) (\<lambda>s. Inr (f64_mul s dividend))) [0..<m])))"

subsection \<open>Counting refreshes\<close>

fun is_reencrypt :: "call \<Rightarrow> bool" where
  "is_reencrypt (ReencryptVec v) = True"
| "is_reencrypt (ReencryptMat m) = True"
| "is_reencrypt c = False"

definition reencrypt_calls :: "call list \<Rightarrow> nat" where
  "reencrypt_calls t = length (filter is_reencrypt t)"

subsection \<open>Reference quantities\<close>

text \<open>The sum of column \<open>i\<close> of a matrix, on the plaintext values.\<close>

definition column_sum :: "num list list \<Rightarrow> nat \<Rightarrow> real" where
  "column_sum X i = sum_list (map (\<lambda>row. val (row ! i)) X)"

text \<open>
  The component count in the words of the specification: the smallest \<open>k\<close> such that
  the sum of the first \<open>k\<close> eigenvalues, divided by the sum of all, exceeds 0.99.
\<close>

definition component_count_by_spec :: "real list \<Rightarrow> nat option" where
  "component_count_by_spec ls =
     find (\<lambda>k. 99 / 100 < sum_list (take k ls) / sum_list ls) [0..<Suc (length ls)]"

text \<open>The rows of \<open>X\<close> after \<open>X += -1 * mean\<close>.\<close>

definition centred :: "num list list \<Rightarrow> num list \<Rightarrow> num list list" where
  "centred X mean = map (\<lambda>row. map2 num_add row (map (num_mul (Plain (- 1))) mean)) X"

subsection \<open>The eigen-decomposition in the words of the specification\<close>

text \<open>
  The steps of the specification, on plaintext reals. \<open>divide_spec\<close> is its \<open>divide\<close>
  (undefined for a zero divisor), \<open>sqrt_spec\<close> its square root of 30 Newton-Raphson
  steps from \<open>x\<^sub>0 = x\<close>, \<open>norm_spec\<close> its norm. \<open>power_pass_spec\<close> is one iteration:
  multiply by \<open>C\<close>, take the norm of the product as the eigenvalue estimate, divide the
  product by it. \<open>eigenpair_spec\<close> extracts one pair: the all-ones candidate, normalised;
  two iterations, the first entry after the first one (iteration \<open>N - 2\<close> for \<open>N = 2\<close>)
  kept as the snapshot; eigenvalue and eigenvector scaled by the ratio of the final first
  entry to the snapshot; \<open>C\<close> deflated by the eigenvalue times the outer product of the
  eigenvector with itself. \<open>eig_spec k\<close> extracts \<open>k\<close> pairs in turn.
\<close>

definition divide_spec :: "real \<Rightarrow> real \<Rightarrow> real option" where
  "divide_spec a b = (if b = 0 then None else Some (1 / b * a))"

fun newton_iter :: "nat \<Rightarrow> real \<Rightarrow> real \<Rightarrow> real option" where
  "newton_iter 0 a y = Some y"
| "newton_iter (Suc n) a y =
     (case divide_spec a y of None \<Rightarrow> None | Some q \<Rightarrow> newton_iter n a (1 / 2 * (y + q)))"

definition sqrt_spec :: "real \<Rightarrow> real option" where
  "sqrt_spec x = newton_iter 30 x x"

definition norm_spec :: "real list \<Rightarrow> real option" where
  "norm_spec v = sqrt_spec (sum_list (map (\<lambda>x. x * x) v))"

definition vector_divide_spec :: "real list \<Rightarrow> real \<Rightarrow> real list option" where
  "vector_divide_spec v b = those (map (\<lambda>x. divide_spec x b) v)"

definition mat_vec :: "real list list \<Rightarrow> real list \<Rightarrow> real list" where
  "mat_vec C w = map (\<lambda>row. sum_list (map (\<lambda>j. row ! j * w ! j) [0..<length w])) C"

definition outer_product :: "real list \<Rightarrow> real list \<Rightarrow> real list list" where
  "outer_product u v = map (\<lambda>a. map (\<lambda>b. a * b) v) u"

definition mat_scale :: "real \<Rightarrow> real list list \<Rightarrow> real list list" where
  "mat_scale c M = map (map (\<lambda>x. c * x)) M"

definition mat_sub :: "real list list \<Rightarrow> real list list \<Rightarrow> real list list" where
  "mat_sub A B = map2 (map2 (\<lambda>a b. a - b)) A B"

definition power_pass_spec :: "real list list \<Rightarrow> real list \<Rightarrow> (real list \<times> real) option" where
  "power_pass_spec C w =
     (let x = mat_vec C w in
      case norm_spec x of
        None \<Rightarrow> None
      | Some eigenvalue_estimate \<Rightarrow>
          (case vector_divide_spec x eigenvalue_estimate of
             None \<Rightarrow> None
           | Some w' \<Rightarrow> Some (w', eigenvalue_estimate)))"

definition eigenpair_spec ::
  "real list list \<Rightarrow> (real \<times> real list \<times> real list list) option" where
  "eigenpair_spec C =
     (let candidate = replicate (length C) 1 in
      case norm_spec candidate of None \<Rightarrow> None | Some nrm \<Rightarrow>
      case vector_divide_spec candidate nrm of None \<Rightarrow> None | Some w0 \<Rightarrow>
      case power_pass_spec C w0 of None \<Rightarrow> None | Some (w1, lam1) \<Rightarrow>
      let snapshot = w1 ! 0 in
      case power_pass_spec C w1 of None \<Rightarrow> None | Some (w2, lam2) \<Rightarrow>
      case divide_spec (w2 ! 0) snapshot of None \<Rightarrow> None | Some ratio \<Rightarrow>
      let eigenvalue = ratio * lam2;
          eigenvector = map (\<lambda>x. x * ratio) w2
      in Some (eigenvalue, eigenvector,
               mat_sub C (mat_scale eigenvalue (outer_product eigenvector eigenvector))))"

fun eig_spec :: "nat \<Rightarrow> real list list \<Rightarrow> (real list \<times> real list list) option" where
  "eig_spec 0 C = Some ([], [])"
| "eig_spec (Suc k) C =
     (case eigenpair_spec C of
        None \<Rightarrow> None
      | Some (eigenvalue, eigenvector, C') \<Rightarrow>
          (case eig_spec k C' of
             None \<Rightarrow> None
           | Some (eigenvalues, eigenvectors) \<Rightarrow>
               Some (eigenvalue # eigenvalues, eigenvector # eigenvectors)))"

text \<open>
  Helpers for relating the two: a number from its tag and value, an optional real
  result as a server result (no value: ZeroDivisionError), and the loop state without
  the matrix.
\<close>

definition without_matrix :: "error + 'c \<times> 'r \<Rightarrow> error + 'r" where
  "without_matrix r = (case r of Inl e \<Rightarrow> Inl e | Inr s \<Rightarrow> Inr (snd s))"

definition mk :: "bool \<Rightarrow> real \<Rightarrow> num" where
  "mk e v = (if e then Enc v else Plain v)"

definition lift_opt :: "('a \<Rightarrow> 'b) \<Rightarrow> 'a option \<Rightarrow> error + 'b" where
  "lift_opt f r = (case r of None \<Rightarrow> Inl ZeroDivisionError | Some x \<Rightarrow> Inr (f x))"

section \<open>Properties\<close>

subsection \<open>The result monad\<close>

lemma bindR_ret [simp]: "bindR (ret x) f = f x"
  by (simp add: bindR_def ret_def split: prod.splits)

lemma bindR_ask_Inr [simp]:
  "bindR (ask c (Inr x)) f = (case f x of (r, t) \<Rightarrow> (r, c # t))"
  by (simp add: bindR_def ask_def)

lemma fst_case_trace [simp]: "fst (case p of (r, t) \<Rightarrow> (r, g t)) = fst p"
  by (cases p) simp

lemma snd_case_trace [simp]: "snd (case p of (r, t) \<Rightarrow> (r, g t)) = g (snd p)"
  by (cases p) simp

lemma bindR_ask_Inl [simp]: "bindR (ask c (Inl e)) f = (Inl e, [c])"
  by (simp add: bindR_def ask_def)

lemma bindE_Inr [simp]: "bindE (Inr x) f = f x"
  by (simp add: bindE_def)

lemma bindE_Inl [simp]: "bindE (Inl e) f = Inl e"
  by (simp add: bindE_def)

lemma bindR_lift_Inr [simp]: "bindR (lift (Inr x)) f = f x"
  by (simp add: bindR_def lift_def split: prod.splits)

lemma bindR_lift_Inl [simp]: "bindR (lift (Inl e)) f = (Inl e, [])"
  by (simp add: bindR_def lift_def)

lemma mapE_cong: "(\<And>x. x \<in> set xs \<Longrightarrow> f x = g x) \<Longrightarrow> mapE f xs = mapE g xs"
  by (induction xs) simp_all

lemma mapE_all_Inr: "(\<And>x. x \<in> set xs \<Longrightarrow> f x = Inr (g x)) \<Longrightarrow> mapE f xs = Inr (map g xs)"
  by (induction xs) simp_all

lemma mapE_Inr_D: "mapE f xs = Inr ys \<Longrightarrow> x \<in> set xs \<Longrightarrow> \<exists>y. f x = Inr y"
  by (induction xs arbitrary: ys) (auto simp: bindE_def split: sum.splits)

lemma mapE_Inr_length: "mapE f xs = Inr ys \<Longrightarrow> length ys = length xs"
  by (induction xs arbitrary: ys) (auto simp: bindE_def split: sum.splits)

lemma mapE_Inl_D: "mapE f xs = Inl e \<Longrightarrow> \<exists>x \<in> set xs. f x = Inl e"
  by (induction xs) (auto simp: bindE_def split: sum.splits)

lemma mapE_fails:
  assumes "x \<in> set xs" "f x = Inl a" "\<And>y e'. y \<in> set xs \<Longrightarrow> f y = Inl e' \<Longrightarrow> e' = e"
  shows "mapE f xs = Inl e"
proof (cases "mapE f xs")
  case (Inl e')
  then show ?thesis using mapE_Inl_D [OF Inl] assms(3) by auto
next
  case (Inr ys)
  then show ?thesis using mapE_Inr_D [OF Inr assms(1)] assms(2) by auto
qed

lemma reencrypt_vec_Enc [simp]: "reencrypt_vec (map Enc v) = Inr (map Enc v)"
  by (induction v)
    (simp_all add: reencrypt_vec_def decrypt_vec_def encrypt_vec_def bindE_def split: sum.splits)

lemma for_range_1 [simp]: "for_range 1 body s = bindR (body s) ret"
proof -
  have "for_range (Suc 0) body s = bindR (body s) (for_range 0 body)"
    by (rule for_range.simps)
  moreover have "for_range 0 body = ret"
    by (rule ext) simp
  ultimately show ?thesis by simp
qed

lemma goldschmidt_division_Plain:
  "b \<noteq> 0 \<Longrightarrow> goldschmidt_division (Plain a) (Plain b)
     = (Inr (Plain (1 / b * a)), [SeedReciprocal (Plain b)])"
  by (simp add: goldschmidt_division_def num_mul_def) (simp add: ret_def)

lemma bindR_Inr [simp]: "bindR (Inr x, t) f = (case f x of (r, t') \<Rightarrow> (r, t @ t'))"
  by (simp add: bindR_def)

lemma bindR_Inl [simp]: "bindR (Inl e, t) f = (Inl e, t)"
  by (simp add: bindR_def)

lemma goldschmidt_division_Plain_zero:
  "goldschmidt_division a (Plain 0) = (Inl ZeroDivisionError, [SeedReciprocal (Plain 0)])"
  by (simp add: goldschmidt_division_def)

lemma pow2_pos [simp]: "0 < pow2 k"
  by (simp add: pow2_def)

lemma pow2_powr: "pow2 k = 2 powr (of_int k)"
  by (simp add: pow2_def powr_real_of_int inverse_eq_divide)

lemma round_even_eq:
  assumes "of_int m - 1 / 2 < r" "r < of_int m + 1 / 2"
  shows "round_even r = m"
proof -
  have "\<lfloor>r\<rfloor> = m \<or> \<lfloor>r\<rfloor> = m - 1" using assms by linarith
  then show ?thesis
  proof
    assume "\<lfloor>r\<rfloor> = m"
    then show ?thesis using assms by (simp add: round_even_def Let_def)
  next
    assume f: "\<lfloor>r\<rfloor> = m - 1"
    then have "r < of_int m" by linarith
    then show ?thesis using assms f by (auto simp: round_even_def Let_def)
  qed
qed

lemma round_f64_eq:
  assumes "pow2 k \<le> \<bar>x\<bar>" "\<bar>x\<bar> < pow2 (k + 1)" "- 1022 \<le> k"
    "of_int m - 1 / 2 < x / pow2 (k - 52)" "x / pow2 (k - 52) < of_int m + 1 / 2"
    "\<bar>of_int m * pow2 (k - 52)\<bar> < 2 ^ 1024"
  shows "round_f64 x = Finite (of_int m * pow2 (k - 52))"
proof -
  have x: "x \<noteq> 0" using assms(1) pow2_pos [of k] by (auto simp del: pow2_pos)
  then have "0 < \<bar>x\<bar>" by simp
  then have "\<lfloor>log 2 \<bar>x\<bar>\<rfloor> = k"
    using assms(1,2) by (simp add: floor_log_eq_powr_iff pow2_powr)
  then have e: "max (\<lfloor>log 2 \<bar>x\<bar>\<rfloor> - 52) (- 1074) = k - 52"
    using assms(3) by simp
  have "round_even (x / pow2 (k - 52)) = m"
    using assms(4,5) by (rule round_even_eq)
  then show ?thesis
    using x assms(6) by (simp add: round_f64_def e Let_def)
qed

lemma reciprocal_of_three:
  "py_reciprocal (Finite 3) = Inr (Finite (6004799503160661 / 2 ^ 54))"
proof -
  have "round_f64 (1 / 3) = Finite (of_int 6004799503160661 * pow2 (- 2 - 52))"
    by (rule round_f64_eq) (simp_all add: pow2_def)
  then show ?thesis by (simp add: pow2_def)
qed

lemma product_with_1e20:
  "f64_mul (Finite (6004799503160661 / 2 ^ 54)) (Finite (10 ^ 20)) = Finite 33333333333333331968"
proof -
  have "round_f64 (6004799503160661 / 2 ^ 54 * 10 ^ 20)
          = Finite (of_int 8138020833333333 * pow2 (64 - 52))"
    by (rule round_f64_eq) (simp_all add: pow2_def)
  then show ?thesis by (simp add: pow2_def)
qed

text \<open>
  C1, as stated, fails on binary64: for \<open>a = 10\<^sup>2\<^sup>0\<close> and \<open>b = 3\<close>, both binary64
  values, the seed is the rounded \<open>1 / 3\<close>, the rounded product is
  \<open>33333333333333331968\<close>, and that is more than \<open>10\<^sup>-\<^sup>6\<close> away from \<open>a / b\<close>.
\<close>

theorem goldschmidt_division_tolerance_counterexample:
  "goldschmidt_division_f64 (Finite (10 ^ 20)) (Finite 3) = Inr (Finite 33333333333333331968)
   \<and> 1 / 10 ^ 6 < \<bar>33333333333333331968 - 10 ^ 20 / (3::real)\<bar>"
proof -
  have "goldschmidt_division_f64 (Finite (10 ^ 20)) (Finite 3)
          = Inr (Finite 33333333333333331968)"
    unfolding goldschmidt_division_f64_def reciprocal_of_three
    by (simp only: bindE_Inr product_with_1e20)
  then show ?thesis by simp
qed



subsection \<open>Newton-Raphson square root\<close>

lemma newton_step_pos: "0 < a \<Longrightarrow> 0 < y \<Longrightarrow> 0 < newton_step a y"
  by (simp add: newton_step_def add_pos_pos)

lemma newton_step_err:
  assumes "0 < y" "0 \<le> a"
  shows "newton_step a y - sqrt a = (y - sqrt a)\<^sup>2 / (2 * y)"
proof -
  have "sqrt a * sqrt a = a" using assms by simp
  then have "(y - sqrt a)\<^sup>2 = y * y - 2 * y * sqrt a + a"
    by (simp add: power2_eq_square algebra_simps)
  then show ?thesis using assms
    by (simp add: newton_step_def field_simps)
qed

lemma newton_step_ge: "0 < y \<Longrightarrow> 0 \<le> a \<Longrightarrow> sqrt a \<le> newton_step a y"
  using newton_step_err [of y a] by (smt (verit) divide_nonneg_pos zero_le_power2)

lemma newton_step_halves:
  assumes "0 < a" "sqrt a \<le> y"
  shows "newton_step a y - sqrt a \<le> (y - sqrt a) / 2"
proof -
  have s: "0 < sqrt a" using assms by simp
  then have y: "0 < y" using assms by linarith
  have "(y - sqrt a)\<^sup>2 \<le> (y - sqrt a) * y"
    unfolding power2_eq_square using assms s by (intro mult_left_mono) auto
  then have "(y - sqrt a)\<^sup>2 / (2 * y) \<le> ((y - sqrt a) * y) / (2 * y)"
    using y by (intro divide_right_mono) auto
  also have "\<dots> = (y - sqrt a) / 2" using y by simp
  finally show ?thesis using newton_step_err [of y a] y assms by simp
qed

lemma newton_first_err:
  assumes "0 < a"
  shows "newton_step a a - sqrt a = (sqrt a - 1)\<^sup>2 / 2"
proof -
  have s: "0 < sqrt a" "sqrt a * sqrt a = a" using assms by simp_all
  have "newton_step a a = 1 / 2 * (a + 1)" using assms by (simp add: newton_step_def)
  also have "\<dots> - sqrt a = (sqrt a * sqrt a - 2 * sqrt a + 1) / 2"
    using s by (simp add: field_simps)
  also have "\<dots> = (sqrt a - 1)\<^sup>2 / 2" by (simp add: power2_eq_square algebra_simps)
  finally show ?thesis by simp
qed

lemma newton_iter_bounds:
  assumes "0 < a"
  shows "sqrt a \<le> (newton_step a ^^ Suc n) a
       \<and> (newton_step a ^^ Suc n) a - sqrt a \<le> (sqrt a - 1)\<^sup>2 / 2 ^ Suc n"
proof (induction n)
  case 0
  show ?case using newton_step_ge [of a a] newton_first_err [of a] assms by simp
next
  case (Suc n)
  let ?y = "(newton_step a ^^ Suc n) a"
  have ge: "sqrt a \<le> ?y" using Suc by simp
  have "0 < sqrt a" using assms by simp
  then have pos: "0 < ?y" using ge by linarith
  have "newton_step a ?y - sqrt a \<le> (?y - sqrt a) / 2"
    using newton_step_halves [OF assms ge] .
  also have "\<dots> \<le> ((sqrt a - 1)\<^sup>2 / 2 ^ Suc n) / 2"
    using Suc by (intro divide_right_mono) auto
  finally have "newton_step a ?y - sqrt a \<le> (sqrt a - 1)\<^sup>2 / 2 ^ Suc (Suc n)"
    by simp
  moreover have "sqrt a \<le> newton_step a ?y"
    using newton_step_ge [of ?y a] pos assms by simp
  ultimately show ?case by simp
qed

lemma newton_body_Plain:
  "y \<noteq> 0 \<Longrightarrow> newton_body (Plain a) (Plain y)
     = (Inr (Plain (newton_step a y)), [SeedReciprocal (Plain y)])"
  by (simp add: newton_body_def goldschmidt_division_Plain num_mul_def num_add_def
      newton_step_def ret_def)

lemma for_range_newton_Plain:
  "0 < a \<Longrightarrow> 0 < y \<Longrightarrow>
   fst (for_range n (newton_body (Plain a)) (Plain y)) = Inr (Plain ((newton_step a ^^ n) y))
   \<and> length (snd (for_range n (newton_body (Plain a)) (Plain y))) = n"
proof (induction n arbitrary: y)
  case 0
  show ?case by (simp add: ret_def)
next
  case (Suc n)
  have "0 < newton_step a y" using Suc.prems by (simp add: newton_step_pos)
  from Suc.IH [OF Suc.prems(1) this] show ?case
    using Suc.prems by (simp add: newton_body_Plain funpow_swap1)
qed

lemma for_range_fails_at_once:
  "fst (body s) = Inl e \<Longrightarrow> for_range (Suc n) body s = (Inl e, snd (body s))"
  by (cases "body s") simp

lemma newton_sqrt_Plain_zero:
  "newton_sqrt (Plain 0) = (Inl ZeroDivisionError, [SeedReciprocal (Plain 0)])"
proof -
  have b: "newton_body (Plain 0) (Plain 0) = (Inl ZeroDivisionError, [SeedReciprocal (Plain 0)])"
    by (simp add: newton_body_def goldschmidt_division_Plain_zero)
  have "for_range (Suc 29) (newton_body (Plain 0)) (Plain 0)
          = (Inl ZeroDivisionError, snd (newton_body (Plain 0) (Plain 0)))"
    by (rule for_range_fails_at_once) (simp add: b)
  then show ?thesis by (simp add: newton_sqrt_def b)
qed


text \<open>
  Nor is a fixed tolerance met for every positive \<open>x\<close>: a pass at most halves the
  iterate, so after 30 passes from \<open>x\<^sub>0 = x = 2\<^sup>1\<^sup>0\<^sup>0\<close> the result is still at least
  \<open>2\<^sup>7\<^sup>0\<close>, far above the root \<open>2\<^sup>5\<^sup>0\<close>.
\<close>

lemma newton_iter_ge_half:
  "0 < a \<Longrightarrow> 0 < y \<Longrightarrow> y / 2 ^ n \<le> (newton_step a ^^ n) y"
proof (induction n arbitrary: y)
  case 0
  show ?case by simp
next
  case (Suc n)
  have p: "0 < newton_step a y" using Suc.prems by (simp add: newton_step_pos)
  have "y / 2 \<le> newton_step a y"
    using Suc.prems by (simp add: newton_step_def field_simps)
  then have "(y / 2) / 2 ^ n \<le> newton_step a y / 2 ^ n"
    by (intro divide_right_mono) auto
  also have "\<dots> \<le> (newton_step a ^^ n) (newton_step a y)"
    using Suc.IH [OF Suc.prems(1) p] .
  finally show ?case by (simp add: funpow_swap1)
qed

lemma newton_sqrt_large_input:
  "\<exists>r. fst (newton_sqrt (Plain (2 ^ 100))) = Inr (Plain r) \<and> 2 ^ 70 \<le> r
       \<and> sqrt (2 ^ 100) = 2 ^ 50"
proof -
  have "fst (newton_sqrt (Plain (2 ^ 100)))
          = Inr (Plain ((newton_step (2 ^ 100) ^^ 30) (2 ^ 100)))"
    using for_range_newton_Plain [of "2 ^ 100" "2 ^ 100" 30] by (simp add: newton_sqrt_def)
  moreover have "(2 ^ 100 :: real) / 2 ^ 30 \<le> (newton_step (2 ^ 100) ^^ 30) (2 ^ 100)"
    by (rule newton_iter_ge_half) simp_all
  moreover have "(2 ^ 100 :: real) / 2 ^ 30 = 2 ^ 70" by simp
  moreover have "sqrt (2 ^ 100 :: real) = 2 ^ 50"
    by (rule real_sqrt_unique) simp_all
  ultimately show ?thesis by simp
qed



subsection \<open>The multiplication primitives\<close>

lemma matrix_mult_cases:
  "matrix_mult A B =
     (case matrix_mult_raw A B of
        Inl e \<Rightarrow> (Inl e, [])
      | Inr P \<Rightarrow> (reencrypt_mat P, [ReencryptMat P]))"
  by (simp add: matrix_mult_def ask_def split: sum.splits)

lemma mat_vec_mult_cases:
  "mat_vec_mult M V =
     (case mat_vec_mult_raw M V of
        Inl e \<Rightarrow> (Inl e, [])
      | Inr P \<Rightarrow> (reencrypt_vec P, [ReencryptVec P]))"
  by (simp add: mat_vec_mult_def ask_def split: sum.splits)

lemma vec_cross_cases:
  "vec_cross U V =
     (case vec_cross_raw U V of
        Inl e \<Rightarrow> (Inl e, [])
      | Inr P \<Rightarrow> (reencrypt_mat P, [ReencryptMat P]))"
  by (simp add: vec_cross_def ask_def split: sum.splits)

lemma vec_mult_cases:
  "vec_mult V x = (reencrypt_vec (vec_mult_raw V x), [ReencryptVec (vec_mult_raw V x)])"
  by (simp add: vec_mult_def ask_def Let_def)

text \<open>
  C7. Whenever \<open>_matrix_mult\<close>, \<open>_mat_vec_mult\<close>, \<open>_vec_mult\<close> or \<open>_vec_cross\<close> returns,
  it has called the key holder's reencryption oracle exactly once, on the product it
  computed, and what it returns is the oracle's answer.
\<close>

theorem multiply_primitives_refresh_once:
  "(fst (matrix_mult A B) = Inr R1 \<longrightarrow>
      (\<exists>P. matrix_mult_raw A B = Inr P \<and> snd (matrix_mult A B) = [ReencryptMat P]
           \<and> reencrypt_mat P = Inr R1)
      \<and> reencrypt_calls (snd (matrix_mult A B)) = 1)
   \<and> (fst (mat_vec_mult M V) = Inr R2 \<longrightarrow>
      (\<exists>P. mat_vec_mult_raw M V = Inr P \<and> snd (mat_vec_mult M V) = [ReencryptVec P]
           \<and> reencrypt_vec P = Inr R2)
      \<and> reencrypt_calls (snd (mat_vec_mult M V)) = 1)
   \<and> (fst (vec_mult U x) = Inr R3 \<longrightarrow>
      snd (vec_mult U x) = [ReencryptVec (vec_mult_raw U x)]
      \<and> reencrypt_vec (vec_mult_raw U x) = Inr R3
      \<and> reencrypt_calls (snd (vec_mult U x)) = 1)
   \<and> (fst (vec_cross V1 V2) = Inr R4 \<longrightarrow>
      (\<exists>P. vec_cross_raw V1 V2 = Inr P \<and> snd (vec_cross V1 V2) = [ReencryptMat P]
           \<and> reencrypt_mat P = Inr R4)
      \<and> reencrypt_calls (snd (vec_cross V1 V2)) = 1)"
  by (auto simp: matrix_mult_cases mat_vec_mult_cases vec_mult_cases vec_cross_cases
      reencrypt_calls_def split: sum.splits)

lemma matrix_mult_example:
  "matrix_mult [[Enc 1, Enc 2], [Enc 3, Enc 4]] [[Enc 1, Enc 2], [Enc 3, Enc 4]]
     = (Inr [[Enc 7, Enc 10], [Enc 15, Enc 22]],
        [ReencryptMat [[Enc 7, Enc 10], [Enc 15, Enc 22]]])"
  by (simp add: matrix_mult_cases matrix_mult_raw_def idx_def idx2_def num_mul_def num_add_def
      reencrypt_mat_def Decrypt_def Encrypt_def decrypt_vec_def encrypt_vec_def)

lemma mat_vec_mult_example:
  "mat_vec_mult [[Enc 1, Enc 2], [Enc 3, Enc 4]] [Enc 5, Enc 6]
     = (Inr [Enc 17, Enc 39], [ReencryptVec [Enc 17, Enc 39]])"
  by (simp add: mat_vec_mult_cases mat_vec_mult_raw_def idx_def idx2_def num_mul_def num_add_def
      reencrypt_vec_def decrypt_vec_def encrypt_vec_def)

lemma vec_mult_example:
  "vec_mult [Enc 1, Enc 2] (Plain 3) = (Inr [Enc 3, Enc 6], [ReencryptVec [Enc 3, Enc 6]])"
  by (simp add: vec_mult_cases vec_mult_raw_def num_mul_def
      reencrypt_vec_def decrypt_vec_def encrypt_vec_def)

lemma vec_cross_example:
  "vec_cross [Enc 1, Enc 2] [Enc 3, Enc 4]
     = (Inr [[Enc 3, Enc 4], [Enc 6, Enc 8]], [ReencryptMat [[Enc 3, Enc 4], [Enc 6, Enc 8]]])"
  by (simp add: vec_cross_cases vec_cross_raw_def idx_def num_mul_def
      reencrypt_mat_def Decrypt_def Encrypt_def decrypt_vec_def encrypt_vec_def)

theorem multiply_primitives_refresh_once_witness:
  "fst (matrix_mult [[Enc 1, Enc 2], [Enc 3, Enc 4]] [[Enc 1, Enc 2], [Enc 3, Enc 4]])
     = Inr [[Enc 7, Enc 10], [Enc 15, Enc 22]]
   \<and> reencrypt_calls
       (snd (matrix_mult [[Enc 1, Enc 2], [Enc 3, Enc 4]] [[Enc 1, Enc 2], [Enc 3, Enc 4]])) = 1
   \<and> fst (mat_vec_mult [[Enc 1, Enc 2], [Enc 3, Enc 4]] [Enc 5, Enc 6]) = Inr [Enc 17, Enc 39]
   \<and> reencrypt_calls (snd (mat_vec_mult [[Enc 1, Enc 2], [Enc 3, Enc 4]] [Enc 5, Enc 6])) = 1
   \<and> fst (vec_mult [Enc 1, Enc 2] (Plain 3)) = Inr [Enc 3, Enc 6]
   \<and> reencrypt_calls (snd (vec_mult [Enc 1, Enc 2] (Plain 3))) = 1
   \<and> fst (vec_cross [Enc 1, Enc 2] [Enc 3, Enc 4]) = Inr [[Enc 3, Enc 4], [Enc 6, Enc 8]]
   \<and> reencrypt_calls (snd (vec_cross [Enc 1, Enc 2] [Enc 3, Enc 4])) = 1"
  using multiply_primitives_refresh_once
    [of "[[Enc 1, Enc 2], [Enc 3, Enc 4]]" "[[Enc 1, Enc 2], [Enc 3, Enc 4]]"
        "[[Enc 7, Enc 10], [Enc 15, Enc 22]]"
        "[[Enc 1, Enc 2], [Enc 3, Enc 4]]" "[Enc 5, Enc 6]" "[Enc 17, Enc 39]"
        "[Enc 1, Enc 2]" "Plain 3" "[Enc 3, Enc 6]"
        "[Enc 1, Enc 2]" "[Enc 3, Enc 4]" "[[Enc 3, Enc 4], [Enc 6, Enc 8]]"]
  unfolding matrix_mult_example mat_vec_mult_example vec_mult_example vec_cross_example
  by (simp add: reencrypt_calls_def)

subsection \<open>Shapes\<close>

lemma idx_Inl: "idx xs i = Inl e \<Longrightarrow> e = IndexError"
  by (simp add: idx_def split: if_splits)

lemma idx2_Inl: "idx2 M i j = Inl e \<Longrightarrow> e = IndexError"
  by (auto simp: idx2_def bindE_def dest: idx_Inl split: sum.splits)

lemma idx_Inr [simp]: "i < length xs \<Longrightarrow> idx xs i = Inr (xs ! i)"
  by (simp add: idx_def)

lemma idx_out [simp]: "length xs \<le> i \<Longrightarrow> idx xs i = Inl IndexError"
  by (simp add: idx_def)

lemma idx2_Inr [simp]: "i < length M \<Longrightarrow> j < length (M ! i) \<Longrightarrow> idx2 M i j = Inr (M ! i ! j)"
  by (simp add: idx2_def)

lemma bindE_Inl_D: "bindE m f = Inl e \<Longrightarrow> m = Inl e \<or> (\<exists>x. m = Inr x \<and> f x = Inl e)"
  by (cases m) simp_all

lemma mat_vec_mult_raw_Inl: "mat_vec_mult_raw M V = Inl e \<Longrightarrow> e = IndexError"
  unfolding mat_vec_mult_raw_def Let_def
  by (auto dest!: bindE_Inl_D mapE_Inl_D dest: idx_Inl idx2_Inl)

lemma matrix_mult_raw_Inl: "matrix_mult_raw A B = Inl e \<Longrightarrow> e = IndexError"
  unfolding matrix_mult_raw_def Let_def
  by (auto dest!: bindE_Inl_D mapE_Inl_D dest: idx_Inl idx2_Inl)

lemma mat_vec_mult_raw_too_short:
  assumes "M \<noteq> []" "length V < length (M ! 0)"
  shows "mat_vec_mult_raw M V = Inl IndexError"
proof (cases "mat_vec_mult_raw M V")
  case (Inl e)
  then show ?thesis using mat_vec_mult_raw_Inl by blast
next
  case (Inr P)
  let ?c = "length (M ! 0)"
  let ?g = "\<lambda>i j. bindE (idx2 M i j) (\<lambda>m. bindE (idx V j) (\<lambda>v. Inr (num_mul m v)))"
  let ?f = "\<lambda>i. bindE (mapE (?g i) [0..<?c]) (\<lambda>temp_prod_3. Inr (np_sum temp_prod_3))"
  have P: "mapE ?f [0..<length M] = Inr P"
    using Inr assms(1) by (simp add: mat_vec_mult_raw_def)
  have "0 \<in> set [0..<length M]" using assms(1) by simp
  from mapE_Inr_D [OF P this] obtain y where "?f 0 = Inr y" by blast
  then obtain t where t: "mapE (?g 0) [0..<?c] = Inr t"
    by (cases "mapE (?g 0) [0..<?c]") simp_all
  have "length V \<in> set [0..<?c]" using assms(2) by simp
  from mapE_Inr_D [OF t this] obtain z where "?g 0 (length V) = Inr z" by blast
  then show ?thesis using assms by simp
qed

lemma mat_vec_mult_raw_surplus:
  assumes "M \<noteq> []" "length (M ! 0) \<le> length V"
  shows "mat_vec_mult_raw M V = mat_vec_mult_raw M (take (length (M ! 0)) V)"
proof -
  have "\<And>j. j \<in> set [0..<length (M ! 0)] \<Longrightarrow> idx V j = idx (take (length (M ! 0)) V) j"
    using assms(2) by (simp add: idx_def)
  then show ?thesis
    using assms(1) unfolding mat_vec_mult_raw_def Let_def
    by (auto intro!: mapE_cong arg_cong2 [where f = bindE])
qed

lemma matrix_mult_raw_too_short:
  assumes "A \<noteq> []" "B \<noteq> []" "B ! 0 \<noteq> []" "length (A ! 0) < length B"
  shows "matrix_mult_raw A B = Inl IndexError"
proof (cases "matrix_mult_raw A B")
  case (Inl e)
  then show ?thesis using matrix_mult_raw_Inl by blast
next
  case (Inr P)
  let ?c = "length (B ! 0)"
  let ?h = "\<lambda>i j k. bindE (idx2 A i k) (\<lambda>a. bindE (idx2 B k j) (\<lambda>b. Inr (num_mul a b)))"
  let ?g = "\<lambda>i j. bindE (mapE (?h i j) [0..<length B]) (\<lambda>temp_prod_4. Inr (np_sum temp_prod_4))"
  let ?f = "\<lambda>i. mapE (?g i) [0..<?c]"
  have P: "mapE ?f [0..<length A] = Inr P"
    using Inr assms(2) by (simp add: matrix_mult_raw_def)
  have "0 \<in> set [0..<length A]" using assms(1) by simp
  from mapE_Inr_D [OF P this] obtain y where y: "?f 0 = Inr y" by blast
  have "0 \<in> set [0..<?c]" using assms(3) by simp
  from mapE_Inr_D [OF y this] obtain u where "?g 0 0 = Inr u" by blast
  then obtain t where t: "mapE (?h 0 0) [0..<length B] = Inr t"
    by (cases "mapE (?h 0 0) [0..<length B]") simp_all
  have "length (A ! 0) \<in> set [0..<length B]" using assms(4) by simp
  from mapE_Inr_D [OF t this] obtain z where "?h 0 0 (length (A ! 0)) = Inr z" by blast
  then show ?thesis using assms by (simp add: idx2_def)
qed

lemma matrix_mult_raw_surplus:
  assumes "B \<noteq> []" "list_all (\<lambda>row. length B \<le> length row) A"
  shows "matrix_mult_raw A B = matrix_mult_raw (map (take (length B)) A) B"
proof -
  have "\<And>i k. i \<in> set [0..<length A] \<Longrightarrow> k \<in> set [0..<length B]
          \<Longrightarrow> idx2 A i k = idx2 (map (take (length B)) A) i k"
    using assms(2) by (auto simp: list_all_length idx2_def idx_def dest: less_le_trans)
  then show ?thesis
    using assms(1) unfolding matrix_mult_raw_def Let_def
    by (auto intro!: mapE_cong arg_cong2 [where f = bindE])
qed




subsection \<open>The mean\<close>

lemma foldl_num_add_Plain:
  "list_all (\<lambda>x. \<not> is_ckks x) xs \<Longrightarrow> foldl num_add (Plain a) xs = Plain (a + sum_list (map val xs))"
  by (induction xs arbitrary: a) (simp_all add: num_add_def add.assoc)

lemma foldl_map2_columns:
  "list_all (\<lambda>row. length row = length acc) rs \<Longrightarrow>
   foldl (\<lambda>acc row. map2 num_add acc row) acc rs
     = map (\<lambda>i. foldl num_add (acc ! i) (map (\<lambda>row. row ! i) rs)) [0..<length acc]"
proof (induction rs arbitrary: acc)
  case Nil
  show ?case by (simp add: map_nth)
next
  case (Cons r rs)
  have len: "length (map2 num_add acc r) = length acc" using Cons.prems by simp
  have "list_all (\<lambda>row. length row = length (map2 num_add acc r)) rs"
    using Cons.prems by (simp add: len)
  from Cons.IH [OF this] show ?case
    using Cons.prems by (simp add: len)
qed

lemma np_sum_axis0_Plain:
  assumes "X \<noteq> []" "list_all (\<lambda>row. length row = m) X"
    "list_all (list_all (\<lambda>x. \<not> is_ckks x)) X"
  shows "np_sum_axis0 X = Inr (map (\<lambda>i. Plain (column_sum X i)) [0..<m])"
proof -
  obtain r rs where X: "X = r # rs" using assms(1) by (cases X) auto
  have r: "length r = m" and rs: "list_all (\<lambda>row. length row = length r) rs"
    using assms(2) X by (simp_all add: list_all_iff)
  have "foldl num_add (r ! i) (map (\<lambda>row. row ! i) rs) = Plain (column_sum X i)" if "i < m" for i
  proof -
    have "list_all (\<lambda>x. \<not> is_ckks x) r" using assms(3) X by simp
    then have "\<not> is_ckks (r ! i)" using r that by (simp add: list_all_length)
    then obtain a where a: "r ! i = Plain a" by (cases "r ! i") auto
    have "list_all (\<lambda>x. \<not> is_ckks x) (map (\<lambda>row. row ! i) rs)"
      using assms(3) X rs r that by (auto simp: list_all_iff)
    from foldl_num_add_Plain [OF this] show ?thesis
      by (simp add: a column_sum_def X comp_def)
  qed
  then show ?thesis
    using rs r by (simp add: np_sum_axis0_def X foldl_map2_columns)
qed

lemma goldschmidt_division_trace:
  "list_all (\<lambda>c. c = SeedReciprocal (Plain b)) (snd (goldschmidt_division (Plain 1) (Plain b)))"
  by (cases "b = 0") (simp_all add: goldschmidt_division_Plain goldschmidt_division_Plain_zero)

lemma vector_mean_trace:
  "list_all (\<lambda>c. c = SeedReciprocal (Plain (real (length Y)))) (snd (vector_mean Y))"
proof (cases "Y = []")
  case True
  then show ?thesis
    by (simp add: vector_mean_def np_sum_axis0_def goldschmidt_division_Plain_zero)
next
  case False
  then show ?thesis
    by (cases "np_sum_axis0 Y")
      (simp_all add: vector_mean_def goldschmidt_division_Plain lift_def)
qed

lemma round_f64_nat:
  assumes "0 < n" "n < 2 ^ 53"
  shows "round_f64 (real n) = Finite (real n)"
proof -
  from ex_power_ivl1 [of 2 n] assms(1)
  obtain k where k: "2 ^ k \<le> n" "n < 2 ^ (k + 1)" by auto
  have "(2::nat) ^ k < 2 ^ 53" using k(1) assms(2) by linarith
  then have "k < 53" by (rule power_less_imp_less_exp [rotated]) simp
  then have k52: "k \<le> 52" by simp
  have r1: "(2::real) ^ k \<le> real n"
    using k(1) by (metis of_nat_le_iff of_nat_numeral of_nat_power)
  have r2: "real n < 2 ^ (k + 1)"
    using k(2) by (metis of_nat_less_iff of_nat_numeral of_nat_power)
  have scale: "real n / pow2 (int k - 52) = real (n * 2 ^ (52 - k))"
    using k52 by (cases "k = 52") (simp_all add: pow2_def nat_diff_distrib')
  have unscale: "real_of_int (int (n * 2 ^ (52 - k))) * pow2 (int k - 52) = real n"
    using k52 by (cases "k = 52") (simp_all add: pow2_def nat_diff_distrib')
  have "real n < 2 ^ 53" using assms(2)
    by (metis of_nat_less_iff of_nat_numeral of_nat_power)
  also have "\<dots> < (2::real) ^ 1024" by simp
  finally have big: "\<bar>real n\<bar> < 2 ^ 1024" by simp
  have "round_f64 (real n) = Finite (of_int (int (n * 2 ^ (52 - k))) * pow2 (int k - 52))"
  proof (rule round_f64_eq)
    show "pow2 (int k) \<le> \<bar>real n\<bar>" using r1 by (simp add: pow2_def)
    show "\<bar>real n\<bar> < pow2 (int k + 1)" using r2 by (simp add: pow2_def nat_add_distrib)
    show "- 1022 \<le> int k" by simp
    show "real_of_int (int (n * 2 ^ (52 - k))) - 1 / 2 < real n / pow2 (int k - 52)"
      unfolding scale by simp
    show "real n / pow2 (int k - 52) < real_of_int (int (n * 2 ^ (52 - k))) + 1 / 2"
      unfolding scale by simp
    show "\<bar>real_of_int (int (n * 2 ^ (52 - k))) * pow2 (int k - 52)\<bar> < 2 ^ 1024"
      unfolding unscale using big .
  qed
  then show ?thesis unfolding unscale .
qed

lemma sum_of_ones:
  assumes "0 < i" "i + j < 2 ^ 53"
  shows "foldl (\<lambda>acc row. map2 f64_add acc row) [Finite (real i)] (replicate j [Finite 1])
           = [Finite (real (i + j))]"
  using assms
proof (induction j arbitrary: i)
  case 0
  show ?case by simp
next
  case (Suc j)
  have "round_f64 (real i + 1) = Finite (real (Suc i))"
    using round_f64_nat [of "Suc i"] Suc.prems by (simp add: add.commute)
  moreover have "foldl (\<lambda>acc row. map2 f64_add acc row) [Finite (real (Suc i))]
                   (replicate j [Finite 1]) = [Finite (real (Suc i + j))]"
    by (rule Suc.IH) (use Suc.prems in simp_all)
  ultimately show ?case by simp
qed

lemma reciprocal_of_49:
  "py_reciprocal (Finite 49) = Inr (Finite (5882252574524729 / 2 ^ 58))"
proof -
  have "round_f64 (1 / 49) = Finite (of_int 5882252574524729 * pow2 (- 6 - 52))"
    by (rule round_f64_eq) (simp_all add: pow2_def)
  then show ?thesis by (simp add: pow2_def)
qed

lemma dividend_times_one:
  "f64_mul (Finite (5882252574524729 / 2 ^ 58)) (Finite 1)
     = Finite (5882252574524729 / 2 ^ 58)"
proof -
  have "round_f64 (5882252574524729 / 2 ^ 58 * 1)
          = Finite (of_int 5882252574524729 * pow2 (- 6 - 52))"
    by (rule round_f64_eq) (simp_all add: pow2_def)
  then show ?thesis by (simp add: pow2_def)
qed

lemma sum_times_dividend:
  "f64_mul (Finite 49) (Finite (5882252574524729 / 2 ^ 58)) = Finite (1 - 1 / 2 ^ 53)"
proof -
  have "round_f64 (49 * (5882252574524729 / 2 ^ 58))
          = Finite (of_int 9007199254740991 * pow2 (- 1 - 52))"
    by (rule round_f64_eq) (simp_all add: pow2_def)
  then show ?thesis by (simp add: pow2_def)
qed

text \<open>
  C5, as stated, fails on binary64: for 49 rows \<open>[1.0]\<close> the column sum is \<open>49\<close>, the seed
  is the rounded \<open>1 / 49\<close>, and their rounded product is \<open>1 - 2\<^sup>-\<^sup>5\<^sup>3\<close>, not the column sum
  divided by the number of rows.
\<close>

theorem vector_mean_quotient_counterexample:
  "vector_mean_f64 (replicate 49 [Finite 1]) = Inr [Finite (1 - 1 / 2 ^ 53)]
   \<and> 1 - 1 / 2 ^ 53 \<noteq> (49 / 49 :: real)"
proof -
  have X: "replicate 49 [Finite 1] = [Finite (real 1)] # replicate 48 [Finite 1]"
    by (simp add: numeral_eq_Suc)
  have s: "np_sum_axis0_f64 (replicate 49 [Finite 1]) = Inr [Finite 49]"
    unfolding X np_sum_axis0_f64_def
    using sum_of_ones [of 1 48] by (simp add: list_all_iff)
  have d: "goldschmidt_division_f64 (Finite 1) (Finite (real (length (replicate 49 [Finite (1::real)]))))
             = Inr (Finite (5882252574524729 / 2 ^ 58))"
    unfolding goldschmidt_division_f64_def
    by (simp only: length_replicate of_nat_numeral reciprocal_of_49 bindE_Inr
        dividend_times_one)
  have m: "idx (replicate 49 [Finite (1::real)]) 0 = Inr [Finite 1]"
    by (simp add: idx_def)
  have e: "mapE (\<lambda>i. bindE (idx [Finite 49] i) (\<lambda>s. Inr (f64_mul s D))) [0..<length [Finite (1::real)]]
             = Inr [f64_mul (Finite 49) D]" for D
    by (simp add: idx_def)
  have "vector_mean_f64 (replicate 49 [Finite 1]) = Inr [Finite (1 - 1 / 2 ^ 53)]"
    unfolding vector_mean_f64_def Let_def s d m
    by (simp only: bindE_Inr e sum_times_dividend)
  then show ?thesis by simp
qed



subsection \<open>Empty input\<close>

lemma vector_mean_no_rows:
  "vector_mean [] = (Inl ZeroDivisionError, [SeedReciprocal (Plain 0)])"
  by (simp add: vector_mean_def np_sum_axis0_def goldschmidt_division_Plain_zero)

lemma vector_mean_no_columns: "vector_mean [[]] = (Inr [], [SeedReciprocal (Plain 1)])"
  by (simp add: vector_mean_def np_sum_axis0_def goldschmidt_division_Plain lift_def)

lemma norm_vec_empty: "norm_vec [] = (Inl ZeroDivisionError, [SeedReciprocal (Plain 0)])"
  by (simp add: norm_vec_def norm_sq_def newton_sqrt_Plain_zero)

text \<open>
  C9, as stated, fails: nothing validates a zero-length vector. The mean of one
  training image with no pixels, the scaling of the empty vector and its element-wise
  division all return the empty vector.
\<close>

theorem empty_input_counterexample:
  "fst (vector_mean [[]]) = Inr [] \<and> fst (vec_mult [] (Enc 2)) = Inr []
   \<and> fst (goldschmidt_vector_division [] (Enc 2)) = Inr []"
  by (simp add: vector_mean_no_columns vec_mult_cases vec_mult_raw_def
      reencrypt_vec_def decrypt_vec_def encrypt_vec_def goldschmidt_vector_division_def ret_def)

text \<open>
  C9, amended. No input is validated. Zero training images make \<open>_vector_mean\<close>, and so
  \<open>Train\<close>, raise ZeroDivisionError at the seed for the row count \<open>0\<close>, leaving the
  server and the array as they were; a zero-length distance list makes the argmin oracle
  raise ValueError; the norm of a zero-length vector raises ZeroDivisionError; the mean
  of zero-length rows, the scaling and the element-wise division of a zero-length vector
  return the empty vector.
\<close>

theorem empty_input_behaviour:
  "vector_mean [] = (Inl ZeroDivisionError, [SeedReciprocal (Plain 0)])
   \<and> Train self N [] = ((Inl ZeroDivisionError, [SeedReciprocal (Plain 0)]), self, [])
   \<and> distance_comparison [] = Inl ValueError
   \<and> norm_vec [] = (Inl ZeroDivisionError, [SeedReciprocal (Plain 0)])
   \<and> vector_mean [[]] = (Inr [], [SeedReciprocal (Plain 1)])
   \<and> vec_mult [] x = (Inr [], [ReencryptVec []])
   \<and> goldschmidt_vector_division [] b = (Inr [], [])"
  by (simp add: vector_mean_no_rows vector_mean_no_columns norm_vec_empty Train_def
      distance_comparison_def decrypt_vec_def np_argmin_def vec_mult_cases vec_mult_raw_def
      reencrypt_vec_def encrypt_vec_def goldschmidt_vector_division_def ret_def)

subsection \<open>The component count\<close>

lemma decrypt_vec_Enc [simp]: "decrypt_vec (map Enc ls) = Inr ls"
  by (induction ls) (simp_all add: decrypt_vec_def)

lemma find_cong_set: "(\<And>x. x \<in> set xs \<Longrightarrow> P x = Q x) \<Longrightarrow> find P xs = find Q xs"
  by (induction xs) simp_all

lemma first_exceeding_find:
  assumes "s \<noteq> 0"
  shows "find (\<lambda>k. 99 / 100 < (acc + sum_list (take (k - j) xs)) / s)
           [Suc j..<Suc (j + length xs)]
         = map_option Suc (first_exceeding (np_cumsum_from acc xs) s j)"
proof (induction xs arbitrary: acc j)
  case Nil
  show ?case by simp
next
  case (Cons x xs)
  have upt: "[Suc j..<Suc (j + length (x # xs))] = Suc j # [Suc (Suc j)..<Suc (Suc j + length xs)]"
    using upt_conv_Cons [of "Suc j" "Suc (j + length (x # xs))"] by (simp del: upt_Suc)
  have "find (\<lambda>k. 99 / 100 < (acc + sum_list (take (k - j) (x # xs))) / s)
          [Suc (Suc j)..<Suc (Suc j + length xs)]
        = find (\<lambda>k. 99 / 100 < (acc + x + sum_list (take (k - Suc j) xs)) / s)
          [Suc (Suc j)..<Suc (Suc j + length xs)]"
  proof (rule find_cong_set)
    fix k assume "k \<in> set [Suc (Suc j)..<Suc (Suc j + length xs)]"
    then have "k - j = Suc (k - Suc j)" by auto
    then show "(99 / 100 < (acc + sum_list (take (k - j) (x # xs))) / s)
        = (99 / 100 < (acc + x + sum_list (take (k - Suc j) xs)) / s)"
      by (simp add: add.assoc)
  qed
  also have "\<dots> = map_option Suc (first_exceeding (np_cumsum_from (acc + x) xs) s (Suc j))"
    by (rule Cons.IH)
  finally show ?case
    using assms unfolding upt by (simp add: exceeds_def)
qed

lemma component_count_by_spec_eq:
  assumes "sum_list ls \<noteq> 0"
  shows "component_count_by_spec ls
           = map_option Suc (first_exceeding (np_cumsum ls) (sum_list ls) 0)"
proof -
  have u: "[0..<Suc (length ls)] = 0 # [Suc 0..<Suc (0 + length ls)]"
    using upt_conv_Cons [of 0 "Suc (length ls)"] by (simp del: upt_Suc)
  have "component_count_by_spec ls
          = find (\<lambda>k. 99 / 100 < sum_list (take k ls) / sum_list ls)
              (0 # [Suc 0..<Suc (0 + length ls)])"
    unfolding component_count_by_spec_def u ..
  also have "\<dots> = find (\<lambda>k. 99 / 100 < (0 + sum_list (take (k - 0) ls)) / sum_list ls)
              [Suc 0..<Suc (0 + length ls)]"
    by simp
  also have "\<dots> = map_option Suc (first_exceeding (np_cumsum_from 0 ls) (sum_list ls) 0)"
    by (rule first_exceeding_find [OF assms])
  finally show ?thesis by (simp add: np_cumsum_def)
qed

text \<open>
  C3. The claim asks for the smallest \<open>k\<close> such that the first \<open>k\<close> eigenvalues carry
  more than 0.99 of the sum (\<open>component_count_by_spec\<close>). \<open>_n_components_comparison\<close>
  returns the position of the first cumulative fraction above 0.99, counted from 0, which
  is one less: whenever the eigenvalues do not sum to zero, the claimed count is the
  successor of what the code returns. For the single eigenvalue \<open>1\<close> the code answers
  \<open>0\<close> components, the claim \<open>1\<close>.
\<close>

theorem n_components_comparison_one_short:
  assumes "sum_list ls \<noteq> 0"
  shows "\<exists>k. n_components_comparison (map Enc ls) = Inr k
            \<and> component_count_by_spec ls = map_option Suc k"
  using assms by (simp add: n_components_comparison_def component_count_by_spec_eq)

theorem n_components_comparison_one_short_witness:
  "n_components_comparison [Enc 1] = Inr (Some 0) \<and> component_count_by_spec [1] = Some 1"
proof -
  have "n_components_comparison [Enc 1] = Inr (Some 0)"
    by (simp add: n_components_comparison_def decrypt_vec_def np_cumsum_def exceeds_def)
  then show ?thesis
    using n_components_comparison_one_short [of "[1]"] by simp
qed

subsection \<open>Classification on an untrained server\<close>

lemma Classify_untrained:
  assumes "projected_training_images self = None"
  shows "\<exists>e. fst (Classify self Y L) = Inl e"
proof (cases "eigenfaces self")
  case None
  then show ?thesis by (simp add: Classify_def getattr_def)
next
  case W: (Some W)
  show ?thesis
  proof (cases "mean_face self")
    case None
    then show ?thesis by (simp add: Classify_def getattr_def W)
  next
    case mu: (Some mu)
    show ?thesis
    proof (cases "project Y W mu")
      case (Pair r t)
      then show ?thesis
        using assms by (cases r) (simp_all add: Classify_def getattr_def W mu)
    qed
  qed
qed

lemma Train_failure:
  assumes "fst (fst (Train self N X)) = Inl e"
  shows "is_trained (fst (snd (Train self N X))) = is_trained self
       \<and> projected_training_images (fst (snd (Train self N X))) = projected_training_images self"
  using assms unfolding Train_def Let_def
  by (auto split: prod.splits sum.splits)

text \<open>
  C4. On a server on which \<open>Train\<close> has not completed, \<open>Classify\<close> raises and returns
  no labels: on the server as \<open>__init__\<close> leaves it the read of \<open>self.eigenfaces\<close> raises
  AttributeError before any computation or oracle call, and after a \<open>Train\<close> that raised
  the server is still untrained and \<open>Classify\<close> raises as well.
\<close>

theorem Classify_before_Train:
  "Classify init_server Y L = (Inl AttributeError, [])
   \<and> (fst (fst (Train init_server N X)) = Inl e \<longrightarrow>
        \<not> is_trained (fst (snd (Train init_server N X)))
        \<and> (\<exists>e'. fst (Classify (fst (snd (Train init_server N X))) Y L) = Inl e'))"
proof -
  have "Classify init_server Y L = (Inl AttributeError, [])"
    by (simp add: Classify_def init_server_def getattr_def)
  moreover have "\<not> is_trained (fst (snd (Train init_server N X)))
        \<and> (\<exists>e'. fst (Classify (fst (snd (Train init_server N X))) Y L) = Inl e')"
    if "fst (fst (Train init_server N X)) = Inl e"
    using Train_failure [OF that] Classify_untrained [of "fst (snd (Train init_server N X))"]
    by (simp add: init_server_def)
  ultimately show ?thesis by blast
qed

theorem Classify_before_Train_witness:
  "Classify init_server [[[Enc 1]]] [''a''] = (Inl AttributeError, [])
   \<and> fst (fst (Train init_server [] [])) = Inl ZeroDivisionError
   \<and> \<not> is_trained (fst (snd (Train init_server [] [])))
   \<and> fst (Classify (fst (snd (Train init_server [] []))) [[[Enc 1]]] [''a'']) = Inl AttributeError"
  using Classify_before_Train [of "[[[Enc 1]]]" "[''a'']" "[]" "[]" ZeroDivisionError]
  by (simp add: Train_def vector_mean_no_rows)

subsection \<open>Evaluation on results only\<close>

lemma fst_bindR: "fst (bindR m f) = (case fst m of Inl e \<Rightarrow> Inl e | Inr x \<Rightarrow> fst (f x))"
  by (cases m) (auto simp: bindR_def split: sum.splits prod.splits)

lemma for_range_fixed: "fst (body s) = Inr s \<Longrightarrow> fst (for_range n body s) = Inr s"
  by (induction n) (simp_all add: ret_def fst_bindR)

lemma fst_ret [simp]: "fst (ret x) = Inr x"
  by (simp add: ret_def)

lemma fst_lift [simp]: "fst (lift r) = r"
  by (simp add: lift_def)

lemma fst_ask [simp]: "fst (ask c r) = r"
  by (simp add: ask_def)

lemma fst_goldschmidt_division_Enc:
  "b \<noteq> 0 \<Longrightarrow> fst (goldschmidt_division (Enc a) (Enc b)) = Inr (Enc (1 / b * a))"
  by (simp add: goldschmidt_division_def fst_bindR num_mul_def reencrypt_vec_def decrypt_vec_def
      encrypt_vec_def idx_def)

lemma fst_goldschmidt_division_Plain:
  "b \<noteq> 0 \<Longrightarrow> fst (goldschmidt_division (Plain a) (Plain b)) = Inr (Plain (1 / b * a))"
  by (simp add: goldschmidt_division_Plain)

lemma fst_newton_sqrt_Enc_1: "fst (newton_sqrt (Enc 1)) = Inr (Enc 1)"
  unfolding newton_sqrt_def Let_def
  by (rule for_range_fixed)
    (simp add: newton_body_def fst_bindR fst_goldschmidt_division_Enc num_mul_def num_add_def
      reencrypt_vec_def decrypt_vec_def encrypt_vec_def idx_def Let_def)

lemma fst_newton_sqrt_Plain_1: "fst (newton_sqrt (Plain 1)) = Inr (Plain 1)"
  unfolding newton_sqrt_def Let_def
  by (rule for_range_fixed)
    (simp add: newton_body_def fst_bindR fst_goldschmidt_division_Plain num_mul_def num_add_def
      Let_def)

lemma upt_0_2: "[0..<2] = [0, Suc 0]"
  by (simp add: upt_rec)

lemma fst_power_pass_unit:
  "fst (power_pass [[Enc 1]] 2 j ([w], lam, w_old))
     = Inr ([Enc (val w)], Enc (val w), if j = 0 then Enc (val w) else w_old)"
  if "val w = 1" "is_ckks w \<or> w = Plain 1"
  using that
  by (auto simp add: power_pass_def fst_bindR norm_vec_def norm_sq_def
      fst_newton_sqrt_Enc_1 goldschmidt_vector_division_def
      fst_goldschmidt_division_Enc 
      mat_vec_mult_cases mat_vec_mult_raw_def 
      idx_def idx2_def num_mul_def num_add_def reencrypt_vec_def 
      decrypt_vec_def encrypt_vec_def Let_def)

lemma fst_eig_body_unit:
  "fst (eig_body 1 ([[Enc 1]], [], [])) = Inr ([[Enc 0]], [Enc 1], [[Enc 1]])"
  by (simp add: eig_body_def fst_power_pass_unit upt_0_2 fst_bindR norm_vec_def norm_sq_def Let_def
      fst_newton_sqrt_Enc_1 fst_newton_sqrt_Plain_1 goldschmidt_vector_division_def
      fst_goldschmidt_division_Enc fst_goldschmidt_division_Plain
      mat_vec_mult_cases mat_vec_mult_raw_def vec_mult_cases vec_mult_raw_def
      vec_cross_cases vec_cross_raw_def np_iadd_mat_def np_iadd_vec_def
      idx_def idx2_def num_mul_def num_add_def reencrypt_vec_def reencrypt_mat_def
      Decrypt_def Encrypt_def decrypt_vec_def encrypt_vec_def)

subsection \<open>Training writes into the caller's array\<close>

lemma vector_mean_Inr_D:
  assumes "fst (vector_mean X) = Inr mean"
  shows "X \<noteq> [] \<and> list_all (\<lambda>row. length row = length (X ! 0)) X \<and> length mean = length (X ! 0)"
proof (cases X)
  case Nil
  then show ?thesis using assms by (simp add: vector_mean_no_rows)
next
  case (Cons r rs)
  have n: "real (length X) \<noteq> 0" using Cons by simp
  show ?thesis
  proof (cases "list_all (\<lambda>row. length row = length r) rs")
    case False
    then show ?thesis using assms Cons by (simp add: vector_mean_def np_sum_axis0_def)
  next
    case True
    let ?s = "foldl (\<lambda>acc row. map2 num_add acc row) r rs"
    let ?d = "Plain (1 / real (length X) * 1)"
    have "mapE (\<lambda>i. bindE (idx ?s i) (\<lambda>s. Inr (num_mul s ?d))) [0..<length r] = Inr mean"
      using assms Cons True n
      by (simp add: vector_mean_def np_sum_axis0_def goldschmidt_division_Plain lift_def)
    from mapE_Inr_length [OF this] show ?thesis using True Cons by simp
  qed
qed

lemma np_iadd_rows_centred:
  assumes "list_all (\<lambda>row. length row = length mean) X"
  shows "np_iadd_rows X (map (num_mul (Plain (- 1))) mean) = Inr (centred X mean)"
  unfolding np_iadd_rows_def centred_def
  by (rule mapE_all_Inr) (use assms in \<open>simp add: np_iadd_vec_def list_all_iff\<close>)

lemma pca_array:
  assumes "X \<noteq> []" "list_all (\<lambda>row. length row = length (X ! 0)) X"
    "mean_face self = Some mean" "length mean = length (X ! 0)"
  shows "snd (pca self X) = centred X mean"
proof -
  obtain r rs where X: "X = r # rs" using assms(1) by (cases X) auto
  have "np_shape X = Inr (length X, length r)"
    using assms(2) X by (simp add: np_shape_def)
  moreover have "np_iadd_rows X (map (num_mul (Plain (- 1))) mean) = Inr (centred X mean)"
    using assms(2,4) by (intro np_iadd_rows_centred) simp
  ultimately show ?thesis
    using assms(3) by (simp add: pca_def getattr_def)
qed

lemma Train_array:
  assumes "fst (vector_mean X) = Inr mean"
  shows "snd (snd (Train self N X)) = centred X mean"
proof -
  from vector_mean_Inr_D [OF assms]
  have "snd (pca (self\<lparr>mean_face := Some mean\<rparr>) X) = centred X mean"
    by (intro pca_array) simp_all
  then show ?thesis
    using assms unfolding Train_def Let_def
    by (cases "vector_mean X") (auto split: prod.splits sum.splits)
qed

lemma Train_Inr_D:
  assumes "fst (fst (Train self N X)) = Inr u"
  shows "\<exists>mean. fst (vector_mean X) = Inr mean
           \<and> mean_face (fst (snd (Train self N X))) = Some mean
           \<and> is_trained (fst (snd (Train self N X)))"
  using assms unfolding Train_def Let_def
  by (cases "vector_mean X") (auto split: prod.splits sum.splits)

text \<open>
  C10. \<open>Train\<close> writes into the array it is given as \<open>vectorized_training_images\<close>:
  when \<open>Train\<close> returns, every row of that array is the row it held before plus
  \<open>-1 * mean_face\<close>, where \<open>mean_face\<close> is the mean \<open>Train\<close> computed and stored. (By
  \<open>Train_array\<close> the same holds when \<open>Train\<close> raises after the mean was computed.)
\<close>

theorem Train_mutates_training_images:
  assumes "fst (fst (Train self N X)) = Inr ()"
  shows "\<exists>mean. fst (vector_mean X) = Inr mean
           \<and> mean_face (fst (snd (Train self N X))) = Some mean
           \<and> snd (snd (Train self N X))
               = map (\<lambda>row. map2 num_add row (map (num_mul (Plain (- 1))) mean)) X"
  using Train_Inr_D [OF assms] Train_array [of X _ self N] by (auto simp: centred_def)

lemma fst_pow_eig_comb_unit: "fst (pow_eig_comb [[Enc 1]]) = Inr ([Enc 1], [[Enc 1]])"
  by (simp add: pow_eig_comb_def fst_bindR fst_eig_body_unit [unfolded One_nat_def])

lemma vector_mean_example:
  "vector_mean [[Enc 1], [Enc 1], [Enc 0], [Enc 0]]
     = (Inr [Enc (1 / 2)], [SeedReciprocal (Plain 4)])"
  by (simp add: vector_mean_def np_sum_axis0_def goldschmidt_division_Plain lift_def
      idx_def num_mul_def num_add_def)

lemma fst_pca_components_example:
  "fst (pca_components 4 1 [[Enc (1 / 2)], [Enc (1 / 2)], [Enc (- 1 / 2)], [Enc (- 1 / 2)]])
     = Inr []"
proof -
  have "matrix_mult (np_T [[Enc (1 / 2)], [Enc (1 / 2)], [Enc (- 1 / 2)], [Enc (- 1 / 2)]])
          [[Enc (1 / 2)], [Enc (1 / 2)], [Enc (- 1 / 2)], [Enc (- 1 / 2)]]
        = (Inr [[Enc 1]], [ReencryptMat [[Enc 1]]])"
    by (simp add: matrix_mult_cases matrix_mult_raw_def np_T_def idx_def idx2_def
        num_mul_def num_add_def reencrypt_mat_def Decrypt_def Encrypt_def decrypt_vec_def
        encrypt_vec_def upt_rec)
  moreover have "n_components_comparison [Enc 1] = Inr (Some 0)"
    by (simp add: n_components_comparison_def decrypt_vec_def np_cumsum_def exceeds_def)
  ultimately show ?thesis
    by (simp add: pca_components_def fst_bindR fst_pow_eig_comb_unit)
qed

lemma Train_example:
  "fst (fst (Train init_server [] [[Enc 1], [Enc 1], [Enc 0], [Enc 0]])) = Inr ()"
proof -
  let ?X = "[[Enc 1], [Enc 1], [Enc 0], [Enc 0]]"
  let ?self = "init_server\<lparr>mean_face := Some [Enc (1 / 2)]\<rparr>"
  have "pca ?self ?X
          = (pca_components 4 1 [[Enc (1 / 2)], [Enc (1 / 2)], [Enc (- 1 / 2)], [Enc (- 1 / 2)]],
             [[Enc (1 / 2)], [Enc (1 / 2)], [Enc (- 1 / 2)], [Enc (- 1 / 2)]])"
    by (simp add: pca_def np_shape_def getattr_def np_iadd_rows_def np_iadd_vec_def
        num_mul_def num_add_def eval_nat_numeral)
  moreover obtain t where "pca_components 4 1
      [[Enc (1 / 2)], [Enc (1 / 2)], [Enc (- 1 / 2)], [Enc (- 1 / 2)]] = (Inr [], t)"
    using fst_pca_components_example
    by (cases "pca_components 4 1 [[Enc (1 / 2)], [Enc (1 / 2)], [Enc (- 1 / 2)], [Enc (- 1 / 2)]]")
      simp
  moreover have "project [] [] [Enc (1 / 2)] = (Inr [], [])"
    by (simp add: project_def ret_def)
  ultimately show ?thesis
    by (simp add: Train_def vector_mean_example)
qed

theorem Train_mutates_training_images_witness:
  "fst (fst (Train init_server [] [[Enc 1], [Enc 1], [Enc 0], [Enc 0]])) = Inr ()
   \<and> snd (snd (Train init_server [] [[Enc 1], [Enc 1], [Enc 0], [Enc 0]]))
       = [[Enc (1 / 2)], [Enc (1 / 2)], [Enc (- 1 / 2)], [Enc (- 1 / 2)]]"
  using Train_mutates_training_images [of init_server "[]" "[[Enc 1], [Enc 1], [Enc 0], [Enc 0]]"]
  by (simp add: Train_example vector_mean_example num_mul_def num_add_def)

subsection \<open>The eigen-decomposition refines the specification's steps\<close>

lemma mk_simps [simp]: "val (mk e v) = v" "is_ckks (mk e v) = e" "mk True v = Enc v" "mk False v = Plain v"
  by (simp_all add: mk_def)

lemma val_num_add [simp]: "val (num_add x y) = val x + val y"
  by (simp add: num_add_def)

lemma val_num_mul [simp]: "val (num_mul x y) = val x * val y"
  by (simp add: num_mul_def)

lemma is_ckks_num_add [simp]: "is_ckks (num_add x y) = (is_ckks x \<or> is_ckks y)"
  by (simp add: num_add_def)

lemma is_ckks_num_mul [simp]: "is_ckks (num_mul x y) = (is_ckks x \<or> is_ckks y)"
  by (simp add: num_mul_def)

lemma mk_True [simp]: "mk True = Enc"
  by (rule ext) simp

lemma mk_False [simp]: "mk False = Plain"
  by (rule ext) simp

lemma num_is_mk: "x = mk (is_ckks x) (val x)"
  by (cases x) simp_all

lemma lift_opt_simps [simp]:
  "lift_opt f None = Inl ZeroDivisionError" "lift_opt f (Some x) = Inr (f x)"
  by (simp_all add: lift_opt_def)

lemma fst_goldschmidt_division:
  "fst (goldschmidt_division a b)
     = lift_opt (mk (is_ckks a \<or> is_ckks b)) (divide_spec (val a) (val b))"
  by (cases a; cases b)
    (simp_all add: goldschmidt_division_def fst_bindR num_mul_def divide_spec_def
      reencrypt_vec_def decrypt_vec_def encrypt_vec_def idx_def)

lemma fst_newton_body:
  assumes "is_ckks y = is_ckks a"
  shows "fst (newton_body a y)
           = lift_opt (\<lambda>q. mk (is_ckks a) (1 / 2 * (val y + q))) (divide_spec (val a) (val y))"
  using assms
  by (cases a; cases y)
    (simp_all add: newton_body_def fst_bindR fst_goldschmidt_division num_mul_def num_add_def
      divide_spec_def Let_def reencrypt_vec_def decrypt_vec_def encrypt_vec_def idx_def)

lemma fst_for_range_newton:
  assumes "is_ckks y = is_ckks a"
  shows "fst (for_range n (newton_body a) y)
           = lift_opt (mk (is_ckks a)) (newton_iter n (val a) (val y))"
  using assms
proof (induction n arbitrary: y)
  case 0
  then show ?case using num_is_mk [of y] by simp
next
  case (Suc n)
  show ?case
  proof (cases "divide_spec (val a) (val y)")
    case None
    then show ?thesis using Suc.prems by (simp add: fst_bindR fst_newton_body)
  next
    case (Some q)
    have "fst (for_range n (newton_body a) (mk (is_ckks a) (1 / 2 * (val y + q))))
            = lift_opt (mk (is_ckks a)) (newton_iter n (val a) (val (mk (is_ckks a) (1 / 2 * (val y + q)))))"
      by (rule Suc.IH) simp
    then show ?thesis using Suc.prems Some by (simp add: fst_bindR fst_newton_body)
  qed
qed

lemma fst_newton_sqrt:
  "fst (newton_sqrt a) = lift_opt (mk (is_ckks a)) (sqrt_spec (val a))"
  by (simp add: newton_sqrt_def sqrt_spec_def fst_for_range_newton)

lemma norm_sq_foldl:
  "foldl (\<lambda>vector_norm x. num_add vector_norm (num_mul x x)) acc v
     = mk (is_ckks acc \<or> list_ex is_ckks v) (val acc + sum_list (map (\<lambda>x. val x * val x) v))"
proof (induction v arbitrary: acc)
  case Nil
  show ?case using num_is_mk [of acc] by simp
next
  case (Cons x v)
  have "(is_ckks acc \<or> is_ckks x \<or> list_ex is_ckks v) = ((is_ckks acc \<or> is_ckks x) \<or> list_ex is_ckks v)"
    by blast
  then show ?case
    by (simp add: Cons.IH add.assoc)
qed

lemma fst_norm_vec:
  "fst (norm_vec v) = lift_opt (mk (list_ex is_ckks v)) (norm_spec (map val v))"
  by (simp add: norm_vec_def fst_newton_sqrt norm_sq_def norm_sq_foldl norm_spec_def comp_def)

lemma fst_mapR: "fst (mapR f xs) = mapE (\<lambda>x. fst (f x)) xs"
proof (induction xs)
  case Nil
  show ?case by simp
next
  case (Cons x xs)
  show ?case
    by (cases "fst (f x)"; cases "mapE (\<lambda>x. fst (f x)) xs")
      (simp_all add: fst_bindR Cons.IH [symmetric])
qed

lemma mapE_lift_opt:
  "mapE (\<lambda>x. lift_opt T (g x)) xs = lift_opt (map T) (those (map g xs))"
proof (induction xs)
  case Nil
  show ?case by simp
next
  case (Cons x xs)
  show ?case
    by (cases "g x"; cases "those (map g xs)") (simp_all add: Cons.IH)
qed

lemma fst_goldschmidt_vector_division:
  assumes "list_all (\<lambda>x. (is_ckks x \<or> is_ckks b) = e) v"
  shows "fst (goldschmidt_vector_division v b)
           = lift_opt (map (mk e)) (vector_divide_spec (map val v) (val b))"
proof -
  have "mapE (\<lambda>x. fst (goldschmidt_division x b)) v
          = mapE (\<lambda>x. lift_opt (mk e) (divide_spec (val x) (val b))) v"
    using assms by (intro mapE_cong) (simp add: fst_goldschmidt_division list_all_iff)
  then show ?thesis
    by (simp add: goldschmidt_vector_division_def fst_mapR mapE_lift_opt
        vector_divide_spec_def comp_def)
qed

lemma foldl_num_add_Enc: "foldl num_add (Enc a) (map Enc vs) = Enc (a + sum_list vs)"
  by (induction vs arbitrary: a) (simp_all add: num_add_def add.assoc)

lemma np_sum_Enc: "vs \<noteq> [] \<Longrightarrow> np_sum (map Enc vs) = Enc (sum_list vs)"
  by (cases vs) (simp_all add: foldl_num_add_Enc)

lemma reencrypt_mat_Enc: "reencrypt_mat (map (map Enc) M) = Inr (map (map Enc) M)"
proof -
  have "mapE decrypt_vec (map (map Enc) M) = Inr M"
    by (induction M) simp_all
  then show ?thesis
    by (simp add: reencrypt_mat_def Decrypt_def Encrypt_def encrypt_vec_def)
qed

lemma those_length: "those xs = Some ys \<Longrightarrow> length ys = length xs"
  by (induction xs arbitrary: ys) (auto split: option.splits)

lemma mat_vec_mult_raw_Enc:
  assumes "C \<noteq> []" "list_all (\<lambda>row. length row = length w) C" "w \<noteq> []"
  shows "mat_vec_mult_raw (map (map Enc) C) w = Inr (map Enc (mat_vec C (map val w)))"
proof -
  let ?M = "map (map Enc) C"
  let ?n = "length w"
  have cols: "idx ?M 0 = Inr (?M ! 0)" "length (?M ! 0) = ?n"
    using assms(1,2) by (simp_all add: list_all_length)
  have row: "bindE (mapE (\<lambda>j. bindE (idx2 ?M i j) (\<lambda>m. bindE (idx w j) (\<lambda>v. Inr (num_mul m v))))
                     [0..<?n]) (\<lambda>temp_prod_3. Inr (np_sum temp_prod_3))
             = Inr (Enc (sum_list (map (\<lambda>j. C ! i ! j * map val w ! j) [0..<?n])))"
    if "i \<in> set [0..<length ?M]" for i
  proof -
    have i: "i < length C" "length (C ! i) = ?n"
      using that assms(2) by (simp_all add: list_all_length)
    have "mapE (\<lambda>j. bindE (idx2 ?M i j) (\<lambda>m. bindE (idx w j) (\<lambda>v. Inr (num_mul m v)))) [0..<?n]
            = Inr (map (\<lambda>j. Enc (C ! i ! j * map val w ! j)) [0..<?n])"
      by (rule mapE_all_Inr) (use i in \<open>simp add: num_mul_def\<close>)
    moreover have "map (\<lambda>j. Enc (C ! i ! j * map val w ! j)) [0..<?n]
            = map Enc (map (\<lambda>j. C ! i ! j * map val w ! j) [0..<?n])"
      by simp
    moreover have "np_sum (map Enc (map (\<lambda>j. C ! i ! j * map val w ! j) [0..<?n]))
            = Enc (sum_list (map (\<lambda>j. C ! i ! j * map val w ! j) [0..<?n]))"
      by (rule np_sum_Enc) (use assms(3) in simp)
    ultimately show ?thesis
      by (simp only: bindE_Inr)
  qed
  have "mapE (\<lambda>i. bindE (mapE (\<lambda>j. bindE (idx2 ?M i j) (\<lambda>m. bindE (idx w j) (\<lambda>v. Inr (num_mul m v))))
                     [0..<?n]) (\<lambda>temp_prod_3. Inr (np_sum temp_prod_3))) [0..<length ?M]
        = Inr (map (\<lambda>i. Enc (sum_list (map (\<lambda>j. C ! i ! j * map val w ! j) [0..<?n])))
                 [0..<length ?M])"
    by (rule mapE_all_Inr) (rule row)
  moreover have "map (\<lambda>i. Enc (sum_list (map (\<lambda>j. C ! i ! j * map val w ! j) [0..<?n])))
                 [0..<length ?M] = map Enc (mat_vec C (map val w))"
    by (rule nth_equalityI) (simp_all add: mat_vec_def)
  ultimately show ?thesis
    using cols by (simp add: mat_vec_mult_raw_def)
qed

lemma fst_mat_vec_mult_Enc:
  assumes "C \<noteq> []" "list_all (\<lambda>row. length row = length w) C" "w \<noteq> []"
  shows "fst (mat_vec_mult (map (map Enc) C) w) = Inr (map Enc (mat_vec C (map val w)))"
  by (simp only: mat_vec_mult_cases mat_vec_mult_raw_Enc [OF assms] reencrypt_vec_Enc
      sum.case fst_conv)

lemma fst_vec_mult_Enc:
  "fst (vec_mult (map Enc w) d) = Inr (map Enc (map (\<lambda>v. v * val d) w))"
proof -
  have "vec_mult_raw (map Enc w) d = map Enc (map (\<lambda>v. v * val d) w)"
    by (simp add: vec_mult_raw_def num_mul_def)
  then show ?thesis by (simp only: vec_mult_cases reencrypt_vec_Enc fst_conv)
qed

lemma fst_vec_cross_Enc:
  assumes "length v = length u"
  shows "fst (vec_cross (map Enc u) (map Enc v)) = Inr (map (map Enc) (outer_product u v))"
proof -
  have "mapE (\<lambda>j. bindE (idx (map Enc u) i) (\<lambda>a. bindE (idx (map Enc v) j) (\<lambda>b. Inr (num_mul a b))))
          [0..<length u] = Inr (map (\<lambda>j. Enc (u ! i * v ! j)) [0..<length u])"
    if "i \<in> set [0..<length u]" for i
    by (rule mapE_all_Inr) (use that assms in \<open>simp add: num_mul_def\<close>)
  then have "vec_cross_raw (map Enc u) (map Enc v)
          = Inr (map (\<lambda>i. map (\<lambda>j. Enc (u ! i * v ! j)) [0..<length u]) [0..<length u])"
    unfolding vec_cross_raw_def Let_def length_map by (rule mapE_all_Inr)
  moreover have "map (\<lambda>i. map (\<lambda>j. Enc (u ! i * v ! j)) [0..<length u]) [0..<length u]
          = map (map Enc) (outer_product u v)"
    using assms
    by (auto simp: outer_product_def intro!: nth_equalityI)
  ultimately show ?thesis
    by (simp only: vec_cross_cases reencrypt_mat_Enc sum.case fst_conv)
qed

lemma np_iadd_mat_Enc:
  assumes "length T = length C" "list_all (\<lambda>row. length row = n) C"
    "list_all (\<lambda>row. length row = n) T"
  shows "np_iadd_mat (map (map Enc) C) (map (map Enc) T)
           = Inr (map (map Enc) (map2 (map2 (\<lambda>a b. a + b)) C T))"
proof -
  have "mapE (\<lambda>(row, t). np_iadd_vec row t) (zip (map (map Enc) C) (map (map Enc) T))
          = Inr (map (\<lambda>(row, t). map2 num_add row t) (zip (map (map Enc) C) (map (map Enc) T)))"
  proof (rule mapE_all_Inr)
    fix x assume x: "x \<in> set (zip (map (map Enc) C) (map (map Enc) T))"
    obtain row t where rt: "x = (row, t)" by (cases x)
    have "row \<in> set (map (map Enc) C)" "t \<in> set (map (map Enc) T)"
      using x rt by (auto dest: set_zip_leftD set_zip_rightD)
    then have "length row = n" "length t = n"
      using assms(2,3) by (auto simp: list_all_iff)
    then show "(case x of (row, t) \<Rightarrow> np_iadd_vec row t)
        = Inr (case x of (row, t) \<Rightarrow> map2 num_add row t)"
      by (simp add: rt np_iadd_vec_def)
  qed
  moreover have "map (\<lambda>(row, t). map2 num_add row t) (zip (map (map Enc) C) (map (map Enc) T))
          = map (map Enc) (map2 (map2 (\<lambda>a b. a + b)) C T)"
    by (simp add: zip_map_map split_def num_add_def comp_def)
  ultimately show ?thesis using assms(1) by (simp add: np_iadd_mat_def)
qed

lemma mat_vec_length [simp]: "length (mat_vec C w) = length C"
  by (simp add: mat_vec_def)

lemma vector_divide_spec_length: "vector_divide_spec v b = Some w \<Longrightarrow> length w = length v"
  by (auto simp: vector_divide_spec_def dest: those_length)

lemma power_pass_spec_length: "power_pass_spec C w = Some (w', l) \<Longrightarrow> length w' = length C"
  by (auto simp: power_pass_spec_def Let_def split: option.splits dest: vector_divide_spec_length)

lemma map_val_Enc [simp]: "map val (map Enc v) = v"
  by (induction v) simp_all

lemma map_val_Plain [simp]: "map val (map Plain v) = v"
  by (induction v) simp_all

lemma list_ex_is_ckks_Enc [simp]: "list_ex is_ckks (map Enc v) = (v \<noteq> [])"
  by (cases v) simp_all

lemma fst_norm_vec_Enc:
  "v \<noteq> [] \<Longrightarrow> fst (norm_vec (map Enc v)) = lift_opt Enc (norm_spec v)"
  using fst_norm_vec [of "map Enc v"] by (simp only: map_val_Enc list_ex_is_ckks_Enc) simp

lemma fst_goldschmidt_vector_division_Enc:
  "fst (goldschmidt_vector_division (map Enc v) (Enc b)) = lift_opt (map Enc) (vector_divide_spec v b)"
proof -
  have "list_all (\<lambda>x. (is_ckks x \<or> is_ckks (Enc b)) = True) (map Enc v)"
    by (simp add: list_all_iff)
  from fst_goldschmidt_vector_division [OF this] show ?thesis
    by (simp only: map_val_Enc val.simps) simp
qed

lemma fst_power_pass:
  assumes "C \<noteq> []" "list_all (\<lambda>row. length row = length w) C" "w \<noteq> []"
  shows "fst (power_pass (map (map Enc) C) 2 j (w, lam, w_old))
           = lift_opt (\<lambda>(w', l). (map Enc w', Enc l, if j = 0 then Enc (w' ! 0) else w_old))
               (power_pass_spec C (map val w))"
proof -
  let ?x = "mat_vec C (map val w)"
  have x: "fst (mat_vec_mult (map (map Enc) C) w) = Inr (map Enc ?x)"
    by (rule fst_mat_vec_mult_Enc [OF assms])
  have xne: "?x \<noteq> []" using assms(1) by (simp add: mat_vec_def)
  have nrm: "fst (norm_vec (map Enc ?x)) = lift_opt Enc (norm_spec ?x)"
    by (rule fst_norm_vec_Enc [OF xne])
  show ?thesis
  proof (cases "norm_spec ?x")
    case None
    then show ?thesis
      by (simp add: power_pass_def fst_bindR x nrm power_pass_spec_def)
  next
    case (Some l)
    note l = this
    have dv: "fst (goldschmidt_vector_division (map Enc ?x) (Enc l))
                = lift_opt (map Enc) (vector_divide_spec ?x l)"
      by (rule fst_goldschmidt_vector_division_Enc)
    show ?thesis
    proof (cases "vector_divide_spec ?x l")
      case None
      then show ?thesis
        by (simp add: power_pass_def fst_bindR x nrm l dv power_pass_spec_def)
    next
      case (Some w')
      have "length w' = length ?x" using vector_divide_spec_length [OF Some] .
      then have "idx (map Enc w') 0 = Inr (Enc (w' ! 0))"
        using assms(1) by (simp add: idx_def)
      then show ?thesis
        using Some by (simp add: power_pass_def fst_bindR x nrm l dv power_pass_spec_def)
    qed
  qed
qed

lemma deflate_eq:
  assumes "length C = length ev" "list_all (\<lambda>row. length row = length ev) C"
  shows "map2 (map2 (\<lambda>a b. a + b)) C (outer_product (map (\<lambda>v. v * (- 1 * lam)) ev) ev)
           = mat_sub C (mat_scale lam (outer_product ev ev))"
proof (rule nth_equalityI)
  show "length (map2 (map2 (\<lambda>a b. a + b)) C (outer_product (map (\<lambda>v. v * (- 1 * lam)) ev) ev))
          = length (mat_sub C (mat_scale lam (outer_product ev ev)))"
    by (simp add: mat_sub_def mat_scale_def outer_product_def)
next
  fix i
  assume "i < length (map2 (map2 (\<lambda>a b. a + b)) C (outer_product (map (\<lambda>v. v * (- 1 * lam)) ev) ev))"
  then have i: "i < length ev" "i < length C" "length (C ! i) = length ev"
    using assms by (simp_all add: outer_product_def list_all_length)
  show "map2 (map2 (\<lambda>a b. a + b)) C (outer_product (map (\<lambda>v. v * (- 1 * lam)) ev) ev) ! i
          = mat_sub C (mat_scale lam (outer_product ev ev)) ! i"
    using i by (auto simp: mat_sub_def mat_scale_def outer_product_def intro!: nth_equalityI)
qed

lemma deflate_shape:
  assumes "length C = length ev" "list_all (\<lambda>row. length row = length ev) C"
  shows "length (mat_sub C (mat_scale lam (outer_product ev ev))) = length ev
       \<and> list_all (\<lambda>row. length row = length ev) (mat_sub C (mat_scale lam (outer_product ev ev)))"
  using assms
  by (auto simp: mat_sub_def mat_scale_def outer_product_def list_all_length)

lemma list_ex_is_ckks_Plain [simp]: "list_ex is_ckks (map Plain v) = False"
  by (induction v) simp_all

lemma fst_norm_vec_Plain: "fst (norm_vec (map Plain v)) = lift_opt Plain (norm_spec v)"
  using fst_norm_vec [of "map Plain v"] by (simp only: map_val_Plain list_ex_is_ckks_Plain) simp

lemma fst_goldschmidt_vector_division_Plain:
  "fst (goldschmidt_vector_division (map Plain v) (Plain b))
     = lift_opt (map Plain) (vector_divide_spec v b)"
proof -
  have "list_all (\<lambda>x. (is_ckks x \<or> is_ckks (Plain b)) = False) (map Plain v)"
    by (simp add: list_all_iff)
  from fst_goldschmidt_vector_division [OF this] show ?thesis
    by (simp only: map_val_Plain val.simps) simp
qed

lemma fst_two_passes:
  assumes "C \<noteq> []" "list_all (\<lambda>row. length row = length C) C" "length w = length C"
  shows "fst (for_each [0..<2] (power_pass (map (map Enc) C) 2) (w, l0, wo))
           = lift_opt (\<lambda>(w1, l1, w2, l2). (map Enc w2, Enc l2, Enc (w1 ! 0)))
               (case power_pass_spec C (map val w) of
                  None \<Rightarrow> None
                | Some (w1, l1) \<Rightarrow>
                    (case power_pass_spec C w1 of
                       None \<Rightarrow> None
                     | Some (w2, l2) \<Rightarrow> Some (w1, l1, w2, l2)))"
proof -
  have w: "list_all (\<lambda>row. length row = length w) C" "w \<noteq> []"
    using assms by auto
  have p1: "fst (power_pass (map (map Enc) C) 2 0 (w, l0, wo))
              = lift_opt (\<lambda>(w', l). (map Enc w', Enc l, Enc (w' ! 0)))
                  (power_pass_spec C (map val w))"
    using fst_power_pass [OF assms(1) w, of 0 l0 wo] by simp
  show ?thesis
  proof (cases "power_pass_spec C (map val w)")
    case None
    then show ?thesis by (simp add: upt_0_2 fst_bindR p1)
  next
    case (Some p)
    obtain w1 l1 where p: "p = (w1, l1)" by (cases p)
    have len: "length w1 = length C"
      using power_pass_spec_length Some p by blast
    have w1: "list_all (\<lambda>row. length row = length (map Enc w1)) C" "map Enc w1 \<noteq> []"
      using assms len by auto
    have p2: "fst (power_pass (map (map Enc) C) 2 (Suc 0) (map Enc w1, Enc l1, Enc (w1 ! 0)))
              = lift_opt (\<lambda>(w', l). (map Enc w', Enc l, Enc (w1 ! 0))) (power_pass_spec C w1)"
      using fst_power_pass [OF assms(1) w1, of "Suc 0" "Enc l1" "Enc (w1 ! 0)"]
      by (simp only: map_val_Enc) simp
    show ?thesis
      by (cases "power_pass_spec C w1")
        (auto simp add: upt_0_2 fst_bindR p1 Some p p2)
  qed
qed

lemma fst_eig_finish:
  assumes "C \<noteq> []" "list_all (\<lambda>row. length row = length C) C" "length w2 = length C"
  shows "fst (bindR (lift (idx (map Enc w2) 0)) (\<lambda>w0.
              bindR (goldschmidt_division w0 (Enc s)) (\<lambda>dividend.
              let lam = num_mul dividend (Enc l2) in
              bindR (vec_mult (map Enc w2) dividend) (\<lambda>w.
              bindR (ask (ReencryptVec w) (reencrypt_vec w)) (\<lambda>w.
              bindR (vec_mult w (num_mul (Plain (- 1)) lam)) (\<lambda>temp.
              bindR (vec_cross temp w) (\<lambda>temp.
              bindR (lift (np_iadd_mat (map (map Enc) C) temp)) (\<lambda>C.
                ret (C, ls @ [lam], Ws @ [w])))))))))
         = lift_opt (\<lambda>ratio.
              (map (map Enc)
                 (mat_sub C (mat_scale (ratio * l2)
                    (outer_product (map (\<lambda>x. x * ratio) w2) (map (\<lambda>x. x * ratio) w2)))),
               ls @ [Enc (ratio * l2)], Ws @ [map Enc (map (\<lambda>x. x * ratio) w2)]))
            (divide_spec (w2 ! 0) s)"
proof (cases "divide_spec (w2 ! 0) s")
  case None
  then show ?thesis
    using assms by (simp add: fst_bindR idx_def fst_goldschmidt_division)
next
  case (Some ratio)
  let ?ev = "map (\<lambda>x. x * ratio) w2"
  let ?lam = "ratio * l2"
  let ?t = "map (\<lambda>v. v * (- 1 * ?lam)) ?ev"
  have i0: "idx (map Enc w2) 0 = Inr (Enc (w2 ! 0))"
    using assms by (simp add: idx_def)
  have d: "fst (goldschmidt_division (Enc (w2 ! 0)) (Enc s)) = Inr (Enc ratio)"
    using Some by (simp add: fst_goldschmidt_division)
  have lam: "num_mul (Enc ratio) (Enc l2) = Enc ?lam" by (simp add: num_mul_def)
  have v1: "fst (vec_mult (map Enc w2) (Enc ratio)) = Inr (map Enc ?ev)"
    using fst_vec_mult_Enc [of w2 "Enc ratio"] by simp
  have v2: "fst (vec_mult (map Enc ?ev) (num_mul (Plain (- 1)) (Enc ?lam))) = Inr (map Enc ?t)"
    using fst_vec_mult_Enc [of ?ev "num_mul (Plain (- 1)) (Enc ?lam)"] by simp
  have cr: "fst (vec_cross (map Enc ?t) (map Enc ?ev)) = Inr (map (map Enc) (outer_product ?t ?ev))"
    by (rule fst_vec_cross_Enc) simp
  have sh: "length C = length ?ev" "list_all (\<lambda>row. length row = length ?ev) C"
    using assms by simp_all
  have "np_iadd_mat (map (map Enc) C) (map (map Enc) (outer_product ?t ?ev))
          = Inr (map (map Enc) (map2 (map2 (\<lambda>a b. a + b)) C (outer_product ?t ?ev)))"
    by (rule np_iadd_mat_Enc [where n = "length C"])
      (use assms in \<open>simp_all add: outer_product_def list_all_iff\<close>)
  then have ad: "np_iadd_mat (map (map Enc) C) (map (map Enc) (outer_product ?t ?ev))
          = Inr (map (map Enc) (mat_sub C (mat_scale ?lam (outer_product ?ev ?ev))))"
    by (simp only: deflate_eq [OF sh])
  show ?thesis
    unfolding Some lift_opt_simps Let_def
    by (simp only: fst_bindR fst_lift fst_ask fst_ret i0 d lam v1 v2 cr ad reencrypt_vec_Enc
        sum.case)
qed

lemma fst_bindR_Inr: "fst m = Inr x \<Longrightarrow> fst (bindR m f) = fst (f x)"
  by (simp add: fst_bindR)

lemma fst_eig_body:
  assumes "C \<noteq> []" "list_all (\<lambda>row. length row = length C) C"
  shows "fst (eig_body (length C) (map (map Enc) C, ls, Ws))
           = lift_opt (\<lambda>(lam, w, C'). (map (map Enc) C', ls @ [Enc lam], Ws @ [map Enc w]))
               (eigenpair_spec C)"
proof -
  let ?ones = "replicate (length C) (1::real)"
  have o: "replicate (length C) (Plain 1) = map Plain ?ones" by simp
  have n0: "fst (norm_vec (replicate (length C) (Plain 1))) = lift_opt Plain (norm_spec ?ones)"
    unfolding o by (rule fst_norm_vec_Plain)
  show ?thesis
  proof (cases "norm_spec ?ones")
    case None
    then show ?thesis
      unfolding eig_body_def eigenpair_spec_def
      by (simp only: prod.case Let_def fst_bindR n0 lift_opt_simps option.case sum.case)
  next
    case nrm: (Some nrm)
    have dv0: "fst (goldschmidt_vector_division (replicate (length C) (Plain 1)) (Plain nrm))
                 = lift_opt (map Plain) (vector_divide_spec ?ones nrm)"
      unfolding o by (rule fst_goldschmidt_vector_division_Plain)
    show ?thesis
    proof (cases "vector_divide_spec ?ones nrm")
      case None
      then show ?thesis
        unfolding eig_body_def eigenpair_spec_def
        by (simp only: prod.case Let_def fst_bindR n0 nrm dv0 lift_opt_simps option.case
            sum.case)
    next
      case w0: (Some w0)
      have len0: "length (map Plain w0) = length C"
        using vector_divide_spec_length [OF w0] by simp
      have tp: "fst (for_each [0..<2] (power_pass (map (map Enc) C) 2)
                      (map Plain w0, Plain 0, Plain 1))
                  = lift_opt (\<lambda>(w1, l1, w2, l2). (map Enc w2, Enc l2, Enc (w1 ! 0)))
                     (case power_pass_spec C w0 of
                        None \<Rightarrow> None
                      | Some (w1, l1) \<Rightarrow>
                          (case power_pass_spec C w1 of
                             None \<Rightarrow> None
                           | Some (w2, l2) \<Rightarrow> Some (w1, l1, w2, l2)))"
        using fst_two_passes [OF assms len0, of "Plain 0" "Plain 1"]
        by (simp only: map_val_Plain)
      show ?thesis
      proof (cases "power_pass_spec C w0")
        case None
        then show ?thesis
          unfolding eig_body_def eigenpair_spec_def
          by (simp only: prod.case Let_def fst_bindR n0 nrm dv0 w0 tp lift_opt_simps
              option.case sum.case)
      next
        case (Some p1)
        obtain w1 l1 where p1: "power_pass_spec C w0 = Some (w1, l1)"
          using Some by (cases p1) simp
        show ?thesis
        proof (cases "power_pass_spec C w1")
          case None
          then show ?thesis
            unfolding eig_body_def eigenpair_spec_def
            by (simp only: prod.case Let_def fst_bindR n0 nrm dv0 w0 tp p1 lift_opt_simps
                option.case sum.case)
        next
          case (Some p2)
          obtain w2 l2 where p2: "power_pass_spec C w1 = Some (w2, l2)"
            using Some by (cases p2) simp
          have len2: "length w2 = length C"
            using power_pass_spec_length [OF p2] .
          note fin = fst_eig_finish [OF assms len2, of "w1 ! 0" l2 ls Ws, unfolded Let_def]
          have r1: "fst (norm_vec (replicate (length C) (Plain 1))) = Inr (Plain nrm)"
            by (simp only: n0 nrm lift_opt_simps)
          have r2: "fst (goldschmidt_vector_division (replicate (length C) (Plain 1)) (Plain nrm))
                      = Inr (map Plain w0)"
            by (simp only: dv0 w0 lift_opt_simps)
          have r3: "fst (for_each [0..<2] (power_pass (map (map Enc) C) 2)
                      (map Plain w0, Plain 0, Plain 1))
                      = Inr (map Enc w2, Enc l2, Enc (w1 ! 0))"
            by (simp only: tp p1 p2 lift_opt_simps option.case prod.case)
          show ?thesis
            unfolding eig_body_def eigenpair_spec_def
            by (simp only: prod.case Let_def fst_bindR_Inr [OF r1] fst_bindR_Inr [OF r2]
                fst_bindR_Inr [OF r3] fin nrm w0 p1 p2 option.case)
              (simp add: lift_opt_def split: option.splits)
        qed
      qed
    qed
  qed
qed

lemma without_matrix_simps [simp]:
  "without_matrix (Inl e) = Inl e" "without_matrix (Inr s) = Inr (snd s)"
  by (simp_all add: without_matrix_def)

lemma eigenpair_spec_shape:
  assumes "list_all (\<lambda>row. length row = length C) C" "eigenpair_spec C = Some (lam, w, C')"
  shows "length C' = length C \<and> list_all (\<lambda>row. length row = length C) C'"
proof -
  from assms(2) obtain w2 l2 ratio w1
    where w2: "power_pass_spec C w1 = Some (w2, l2)"
      and C': "C' = mat_sub C (mat_scale (ratio * l2)
                 (outer_product (map (\<lambda>x. x * ratio) w2) (map (\<lambda>x. x * ratio) w2)))"
    by (auto simp: eigenpair_spec_def Let_def split: option.splits)
  have len: "length C = length (map (\<lambda>x. x * ratio) w2)"
    using power_pass_spec_length [OF w2] by simp
  have "list_all (\<lambda>row. length row = length (map (\<lambda>x. x * ratio) w2)) C"
    using assms(1) len by simp
  from deflate_shape [OF len this, of "ratio * l2"] show ?thesis
    using len C' by simp
qed

lemma fst_for_range_eig:
  assumes "length C = n" "list_all (\<lambda>row. length row = n) C" "k = 0 \<or> 0 < n"
  shows "without_matrix (fst (for_range k (eig_body n) (map (map Enc) C, ls, Ws)))
           = lift_opt (\<lambda>(lams, W). (ls @ map Enc lams, Ws @ map (map Enc) W)) (eig_spec k C)"
  using assms
proof (induction k arbitrary: C ls Ws)
  case 0
  show ?case by simp
next
  case (Suc k)
  have ne: "C \<noteq> []" using Suc.prems by auto
  have sq: "list_all (\<lambda>row. length row = length C) C" using Suc.prems by simp
  have b: "fst (eig_body n (map (map Enc) C, ls, Ws))
             = lift_opt (\<lambda>(lam, w, C'). (map (map Enc) C', ls @ [Enc lam], Ws @ [map Enc w]))
                 (eigenpair_spec C)"
    using fst_eig_body [OF ne sq] Suc.prems(1) by simp
  show ?case
  proof (cases "eigenpair_spec C")
    case None
    then show ?thesis by (simp add: fst_bindR b)
  next
    case (Some p)
    obtain lam w C' where p: "eigenpair_spec C = Some (lam, w, C')"
      using Some by (cases p) auto
    from eigenpair_spec_shape [OF sq p] Suc.prems
    have sh: "length C' = n" "list_all (\<lambda>row. length row = n) C'" "k = 0 \<or> 0 < n"
      by auto
    have "without_matrix
            (fst (for_range k (eig_body n) (map (map Enc) C', ls @ [Enc lam], Ws @ [map Enc w])))
          = lift_opt (\<lambda>(lams, W). ((ls @ [Enc lam]) @ map Enc lams, (Ws @ [map Enc w]) @ map (map Enc) W))
              (eig_spec k C')"
      by (rule Suc.IH [OF sh])
    then show ?thesis
      by (cases "eig_spec k C'") (auto simp: fst_bindR b p)
  qed
qed

lemma fst_pow_eig_comb:
  "fst (pow_eig_comb C)
     = without_matrix (fst (for_range (length C) (eig_body (length C)) (C, [], [])))"
  by (cases "fst (for_range (length C) (eig_body (length C)) (C, [], []))")
    (auto simp: pow_eig_comb_def Let_def fst_bindR split: prod.splits)


lemma newton_iter_fixed: "y \<noteq> 0 \<Longrightarrow> a = y * y \<Longrightarrow> newton_iter n a y = Some y"
  by (induction n) (simp_all add: divide_spec_def)

lemma eigenpair_spec_unit: "eigenpair_spec [[1]] = Some (1, [1], [[0]])"
proof -
  have s: "sqrt_spec 1 = Some 1"
    unfolding sqrt_spec_def by (rule newton_iter_fixed) simp_all
  have p: "power_pass_spec [[1]] [1] = Some ([1], 1)"
    by (simp add: power_pass_spec_def mat_vec_def norm_spec_def s vector_divide_spec_def
        divide_spec_def)
  show ?thesis
    by (simp add: eigenpair_spec_def norm_spec_def s vector_divide_spec_def divide_spec_def p
        mat_sub_def mat_scale_def outer_product_def)
qed


end
